theory Spec2Isabelle
  imports Main
begin

section \<open>Python values used by the checker\<close>

text \<open>
  The program is a single Python module. A \<open>str\<close> is modelled as a \<open>string\<close> whose
  characters are the code points U+0000 to U+00FF; the character classes below are
  those of Python on that range. Python integers are unbounded and modelled as \<open>int\<close>;
  converting between \<open>int\<close> and \<open>str\<close> is limited to 4300 digits, the default of the
  interpreter.
  Exceptions are values of \<open>exn\<close>; a function that may raise returns \<open>exn + 'a\<close>.
  \<open>exn\<close> stands for the subclasses of \<open>Exception\<close>, which is what the handlers of the module
  catch: \<open>PyException\<close> is \<open>Exception\<close> itself or any subclass not named here, with its text.
\<close>

datatype exn =
    TypeError string
  | FloodWaitError int
  | ValueError string
  | IndexError string
  | FileNotFoundError string
  | UnicodeDecodeError string
  | SessionPasswordNeededError
  | RecursionError string
  | PyException string

subsection \<open>Character classes and string methods\<close>

definition is_digit :: "char \<Rightarrow> bool" where
  "is_digit c = (48 \<le> (of_char c :: nat) \<and> (of_char c :: nat) \<le> 57)"

definition is_space :: "char \<Rightarrow> bool" where
  \<comment> \<open>\<open>str.isspace\<close>, the class \<open>str.strip\<close> removes: TAB, LF, VT, FF, CR, FS, GS, RS, US,
      SPACE, U+0085 and U+00A0.\<close>
  "is_space c =
     (let k = (of_char c :: nat)
      in (9 \<le> k \<and> k \<le> 13) \<or> (28 \<le> k \<and> k \<le> 32) \<or> k = 133 \<or> k = 160)"

definition is_int_space :: "char \<Rightarrow> bool" where
  \<comment> \<open>What \<open>int\<close> skips around a literal: TAB, LF, VT, FF, CR, SPACE, and the spaces
      beyond ASCII, U+0085 and U+00A0; not FS, GS, RS, US.\<close>
  "is_int_space c =
     (let k = (of_char c :: nat)
      in (9 \<le> k \<and> k \<le> 13) \<or> k = 32 \<or> k = 133 \<or> k = 160)"

definition lower_char :: "char \<Rightarrow> char" where
  \<comment> \<open>A to Z, and the upper case letters U+00C0 to U+00DE (U+00D7 is the times sign).\<close>
  "lower_char c =
     (case map_of (zip ''ABCDEFGHIJKLMNOPQRSTUVWXYZ'' ''abcdefghijklmnopqrstuvwxyz'') c of
        Some l \<Rightarrow> l
      | None \<Rightarrow>
          (let k = (of_char c :: nat)
           in if 192 \<le> k \<and> k \<le> 222 \<and> k \<noteq> 215 then char_of (k + 32) else c))"

definition lower :: "string \<Rightarrow> string" where
  "lower s = map lower_char s"

definition strip :: "string \<Rightarrow> string" where
  "strip s = rev (dropWhile is_space (rev (dropWhile is_space s)))"

fun split_on :: "char \<Rightarrow> string \<Rightarrow> string list" where
  "split_on sep [] = [[]]"
| "split_on sep (c # cs) =
     (if c = sep then [] # split_on sep cs
      else (case split_on sep cs of
              [] \<Rightarrow> [[c]]
            | f # fs \<Rightarrow> (c # f) # fs))"

fun starts_with :: "string \<Rightarrow> string \<Rightarrow> bool" where
  "starts_with [] s = True"
| "starts_with (p # ps) [] = False"
| "starts_with (p # ps) (c # cs) = (p = c \<and> starts_with ps cs)"

fun contains :: "string \<Rightarrow> string \<Rightarrow> bool" where
  \<comment> \<open>\<open>contains sub s\<close> is Python's \<open>sub in s\<close> on strings.\<close>
  "contains sub [] = (sub = [])"
| "contains sub (c # cs) = (starts_with sub (c # cs) \<or> contains sub cs)"

subsection \<open>\<open>int(s)\<close> and \<open>str(i)\<close>\<close>

definition digit_val :: "char \<Rightarrow> nat" where
  "digit_val c = of_char c - 48"

definition digit_chr :: "nat \<Rightarrow> char" where
  "digit_chr d = ''0123456789'' ! d"

definition numeral_value :: "string \<Rightarrow> nat" where
  "numeral_value s = foldl (\<lambda>a c. 10 * a + digit_val c) 0 s"

fun underscores_ok :: "string \<Rightarrow> bool" where
  \<comment> \<open>Digits, with single underscores allowed between two digits only.\<close>
  "underscores_ok [] = False"
| "underscores_ok [c] = is_digit c"
| "underscores_ok (c # d # cs) =
     (if is_digit c then (if d = CHR ''_'' then underscores_ok cs else underscores_ok (d # cs))
      else False)"

definition hex_digit :: "nat \<Rightarrow> char" where
  "hex_digit d = ''0123456789abcdef'' ! d"

definition repr_char :: "char \<Rightarrow> char \<Rightarrow> string" where
  "repr_char q c =
     (let k = (of_char c :: nat) in
      if c = q \<or> c = CHR 0x5C then [CHR 0x5C, c]
      else if k = 10 then [CHR 0x5C, CHR ''n'']
      else if k = 13 then [CHR 0x5C, CHR ''r'']
      else if k = 9 then [CHR 0x5C, CHR ''t'']
      else if k < 32 \<or> (127 \<le> k \<and> k \<le> 160) \<or> k = 173
      then [CHR 0x5C, CHR ''x'', hex_digit (k div 16), hex_digit (k mod 16)]
      else [c])"

definition repr_str :: "string \<Rightarrow> string" where
  \<comment> \<open>\<open>repr\<close> of a \<open>str\<close>: single quotes unless the text has a single and no double quote.\<close>
  "repr_str s =
     (let q = (if CHR 0x27 \<in> set s \<and> CHR 0x22 \<notin> set s then CHR 0x22 else CHR 0x27)
      in [q] @ concat (map (repr_char q) s) @ [q])"

fun str_nat :: "nat \<Rightarrow> string" where
  \<comment> \<open>The decimal digits of a natural number.\<close>
  "str_nat n = (if n < 10 then [digit_chr n] else str_nat (n div 10) @ [digit_chr (n mod 10)])"

declare str_nat.simps [simp del]

definition decimal_int :: "int \<Rightarrow> string" where
  \<comment> \<open>The decimal numeral of an integer.\<close>
  "decimal_int i = (if i < 0 then CHR ''-'' # str_nat (nat (- i)) else str_nat (nat i))"

definition max_str_digits :: nat where
  \<comment> \<open>\<open>sys.get_int_max_str_digits()\<close>, at its default.\<close>
  "max_str_digits = 4300"

definition py_int :: "string \<Rightarrow> exn + int" where
  \<comment> \<open>\<open>int(s)\<close>. \<open>run\<close> is the stretch of digits and underscores the conversion scans; its
      digits are counted against the limit before what follows the stretch is looked at.\<close>
  "py_int s =
     (let t = rev (dropWhile is_int_space (rev (dropWhile is_int_space s)));
          bad = Inl (ValueError (''invalid literal for int() with base 10: '' @ repr_str s))
      in case t of
           [] \<Rightarrow> bad
         | c # cs \<Rightarrow>
             (let neg = (c = CHR ''-'');
                  body = (if c = CHR ''-'' \<or> c = CHR ''+'' then cs else t);
                  run = takeWhile (\<lambda>x. is_digit x \<or> x = CHR ''_'') body;
                  digits = length (filter is_digit run)
              in if underscores_ok run \<and> max_str_digits < digits
                 then Inl (ValueError
                        (''Exceeds the limit (4300 digits) for integer string conversion: value has ''
                         @ str_nat digits
                         @ '' digits; use sys.set_int_max_str_digits() to increase the limit''))
                 else if underscores_ok body
                 then (let v = int (numeral_value (filter (\<lambda>x. x \<noteq> CHR ''_'') body))
                       in Inr (if neg then - v else v))
                 else bad))"

definition str_int :: "int \<Rightarrow> exn + string" where
  \<comment> \<open>\<open>str(i)\<close>: the decimal numeral, unless it has more digits than the limit.\<close>
  "str_int i =
     (if max_str_digits < length (str_nat (nat \<bar>i\<bar>))
      then Inl (ValueError
             (''Exceeds the limit (4300 digits) for integer string conversion; ''
              @ ''use sys.set_int_max_str_digits() to increase the limit''))
      else Inr (decimal_int i))"

fun exn_str :: "exn \<Rightarrow> string" where
  \<comment> \<open>\<open>str(e)\<close>, as the f-strings of the module interpolate an exception.\<close>
  "exn_str (TypeError m) = m"
| "exn_str (FloodWaitError s) = ''A wait of '' @ decimal_int s @ '' seconds is required''"
| "exn_str (ValueError m) = m"
| "exn_str (IndexError m) = m"
| "exn_str (FileNotFoundError m) = m"
| "exn_str (UnicodeDecodeError m) = m"
| "exn_str SessionPasswordNeededError = ''Two-steps verification is enabled and a password is required''"
| "exn_str (RecursionError m) = m"
| "exn_str (PyException m) = m"

subsection \<open>\<open>increment_phone_number\<close>\<close>

definition increment_phone_number :: "string \<Rightarrow> exn + string" where
  "increment_phone_number phone_number =
     (case py_int phone_number of
        Inl e \<Rightarrow> Inl e
      | Inr v \<Rightarrow> str_int (v + 1))"

definition is_numeral :: "string \<Rightarrow> bool" where
  \<comment> \<open>A decimal numeral string: one or more of the characters 0 to 9.\<close>
  "is_numeral s = (s \<noteq> [] \<and> list_all is_digit s)"

section \<open>The environment\<close>

text \<open>
  Everything outside the module is one explicit \<open>world\<close> value that the functions take and
  return: the file system, what has been printed, the pauses requested from
  \<open>asyncio.sleep\<close>, the replies the remote service will give to the next requests and the
  requests sent so far, and the behaviour of the client sessions still to be opened.
  Two more fields belong to the run-time the module sits on: what \<open>pandas\<close> gives back
  when it reads a stored frame, and how many nested calls of \<open>get_names\<close> the
  interpreter's recursion limit still allows.
  A call that waits for a reply the service never gives does not return: the model's
  value is \<open>None\<close>. Opening a file for writing and writing it are taken to succeed,
  and text is written as it is (no newline translation on output).
  The \<open>client\<close> argument of \<open>get_names\<close> and \<open>validate_users\<close> is the connection the
  world's replies come through, so the model does not pass it along.
\<close>

datatype proxy_kind = SOCKS5 | HTTP

record proxy =
  proxy_type :: proxy_kind
  proxy_addr :: string
  proxy_port :: int
  proxy_rdns :: bool
  proxy_username :: "string option"
  proxy_password :: "string option"

datatype pyval = PNone | PBool bool | PInt int | PStr string | PList "pyval list"

type_synonym pydict = "(string \<times> pyval) list"

datatype user_status =
    UserStatusOnline
  | UserStatusOffline string  \<comment> \<open>carries \<open>was_online\<close> as \<open>strftime\<close> renders it\<close>
  | UserStatusRecently
  | UserStatusLastWeek
  | UserStatusLastMonth
  | UserStatusEmpty

record user =
  user_id :: int
  username :: pyval
  usernames :: pyval
  first_name :: pyval
  last_name :: pyval
  fake :: pyval
  verified :: pyval
  premium :: pyval
  mutual_contact :: pyval
  bot :: pyval
  bot_chat_history :: pyval
  restricted :: pyval
  restriction_reason :: pyval
  status :: user_status
  phone :: pyval

datatype file_data = Text string | Workbook "pydict list"

datatype request = ImportContactsRequest string | DeleteContactsRequest "int list"

datatype reply = Raises exn | Users "user list"

text \<open>One constructor of \<open>out\<close> for each \<open>print\<close> of the module, with the values it interpolates.\<close>

datatype out =
    SkippingLine string
  | Checking string
  | Done
  | RateLimitHit int
  | ErrorFor string pyval
  | UnexpectedErrorFor string pyval
  | LoggingIn
  | FailedToConnect proxy exn
  | ResultsSaved string

text \<open>
  What the service and the operator do during one client session, call by call:
  \<open>None\<close> or \<open>Inr\<close> is a call that returns, \<open>Some e\<close> or \<open>Inl e\<close> one that raises \<open>e\<close>.
\<close>

record session =
  connect_r :: "exn option"
  is_user_authorized_r :: "exn + bool"
  send_code_request_r :: "exn option"
  input_r :: "exn + string"
  sign_in_r :: "exn option"
  getpass_r :: "exn + string"
  sign_in_password_r :: "exn option"

datatype net_event = Connect proxy | Disconnect proxy

datatype client = TelegramClient proxy

record world =
  files :: "string \<rightharpoonup> file_data"
  stdout :: "out list"
  sleeps :: "int list"
  rpc :: "reply list"
  sent :: "request list"
  sessions :: "session list"
  net_log :: "net_event list"
  read_excel :: "pydict list \<Rightarrow> exn + pydict list"
  recursion_budget :: nat

definition world0 :: world where
  \<comment> \<open>No files, nothing printed, a service that never replies; frames are read back as
      they were written, and 990 nested calls fit under the recursion limit.\<close>
  "world0 = \<lparr>files = Map.empty, stdout = [], sleeps = [], rpc = [], sent = [], sessions = [],
             net_log = [], read_excel = Inr, recursion_budget = 990\<rparr>"

definition print :: "out \<Rightarrow> world \<Rightarrow> world" where
  "print line w = w\<lparr>stdout := stdout w @ [line]\<rparr>"

definition sleep :: "int \<Rightarrow> world \<Rightarrow> world" where
  "sleep secs w = w\<lparr>sleeps := sleeps w @ [secs]\<rparr>"

definition request :: "world \<Rightarrow> request \<Rightarrow> (reply \<times> world) option" where
  \<comment> \<open>\<open>await client(req)\<close>: the next reply of the service, if it ever replies.\<close>
  "request w req =
     (case rpc w of
        [] \<Rightarrow> None
      | r # rs \<Rightarrow> Some (r, w\<lparr>rpc := rs, sent := sent w @ [req]\<rparr>))"

subsection \<open>Text files\<close>

fun universal_newlines :: "string \<Rightarrow> string" where
  \<comment> \<open>Text mode reading: CR LF and a lone CR are read as LF.\<close>
  "universal_newlines [] = []"
| "universal_newlines (c # cs) =
     (if c = CHR 0x0D
      then (case cs of
              [] \<Rightarrow> [CHR 0x0A]
            | d # ds \<Rightarrow> if d = CHR 0x0A then CHR 0x0A # universal_newlines ds
                        else CHR 0x0A # universal_newlines (d # ds))
      else c # universal_newlines cs)"

fun file_lines :: "string \<Rightarrow> string list" where
  \<comment> \<open>The lines of a text, each with its terminating LF when it has one.\<close>
  "file_lines [] = []"
| "file_lines (c # cs) =
     (if c = CHR 0x0A then [c] # file_lines cs
      else (case file_lines cs of
              [] \<Rightarrow> [[c]]
            | l # ls \<Rightarrow> (c # l) # ls))"

definition open_read :: "world \<Rightarrow> string \<Rightarrow> exn + string" where
  \<comment> \<open>\<open>open(file_path, 'r')\<close> and the text it yields; a workbook is not decodable text.\<close>
  "open_read w file_path =
     (case files w file_path of
        None \<Rightarrow> Inl (FileNotFoundError file_path)
      | Some (Workbook rows) \<Rightarrow> Inl (UnicodeDecodeError file_path)
      | Some (Text content) \<Rightarrow> Inr (universal_newlines content))"

definition readline :: "string \<Rightarrow> string" where
  "readline content = (case file_lines content of [] \<Rightarrow> [] | l # ls \<Rightarrow> l)"

subsection \<open>\<open>read_proxy_settings\<close>\<close>

fun read_proxy_lines :: "world \<Rightarrow> string list \<Rightarrow> proxy list \<Rightarrow> (exn + proxy list) \<times> world" where
  \<comment> \<open>The \<open>for line in f\<close> loop; \<open>proxies\<close> is the list built so far.\<close>
  "read_proxy_lines w [] proxies = (Inr proxies, w)"
| "read_proxy_lines w (line # rest) proxies =
     (let proxy_data = split_on (CHR '','') (strip line) in
      if length proxy_data < 3
      then read_proxy_lines (print (SkippingLine line) w) rest proxies
      else (case py_int (proxy_data ! 2) of
              Inl e \<Rightarrow> (Inl e, w)
            | Inr p \<Rightarrow>
                read_proxy_lines w rest
                  (proxies @
                   [\<lparr>proxy_type = (if lower (proxy_data ! 0) = ''socks5'' then SOCKS5 else HTTP),
                     proxy_addr = proxy_data ! 1,
                     proxy_port = p,
                     proxy_rdns = True,
                     proxy_username = (if length proxy_data > 3 then Some (proxy_data ! 3) else None),
                     proxy_password = (if length proxy_data > 4 then Some (proxy_data ! 4) else None)\<rparr>])))"

definition read_proxy_settings :: "world \<Rightarrow> string \<Rightarrow> (exn + proxy list) \<times> world" where
  "read_proxy_settings w file_path =
     (case open_read w file_path of
        Inl e \<Rightarrow> (Inl e, w)
      | Inr content \<Rightarrow> read_proxy_lines w (file_lines content) [])"

definition proxy_data_of :: "string \<Rightarrow> string list" where
  \<comment> \<open>The fields of a line, as the loop computes them: \<open>line.strip().split(',')\<close>.\<close>
  "proxy_data_of line = split_on (CHR '','') (strip line)"

subsection \<open>The cursor file\<close>

definition read_last_checked_number :: "world \<Rightarrow> string \<Rightarrow> exn + string" where
  "read_last_checked_number w file_path =
     (case open_read w file_path of
        Inl e \<Rightarrow> Inl e
      | Inr content \<Rightarrow> Inr (strip (readline content)))"

definition write_last_checked_number :: "world \<Rightarrow> string \<Rightarrow> string \<Rightarrow> world" where
  \<comment> \<open>\<open>open(file_path, 'w')\<close> truncates or creates the file; the text is written as it is.\<close>
  "write_last_checked_number w file_path number = w\<lparr>files := (files w)(file_path \<mapsto> Text number)\<rparr>"

subsection \<open>\<open>save_to_excel\<close>\<close>

text \<open>
  A workbook file stands for the frame last handed to \<open>to_excel\<close>: the list of its
  records, in order. What \<open>read_excel\<close> makes of a stored frame (cell types are inferred
  anew, numbers are stored as floating point) is the world's \<open>read_excel\<close>; \<open>concat\<close>
  puts the new one-record frame after the frame read.
\<close>

definition save_to_excel :: "world \<Rightarrow> string \<Rightarrow> pydict \<Rightarrow> (exn + unit) \<times> world" where
  "save_to_excel w file_path data =
     (let df = [data] in
      case files w file_path of
        None \<Rightarrow>
          (Inr (), print (ResultsSaved file_path) (w\<lparr>files := (files w)(file_path \<mapsto> Workbook df)\<rparr>))
      | Some (Text content) \<Rightarrow> (Inl (ValueError ''Excel file format cannot be determined''), w)
      | Some (Workbook stored) \<Rightarrow>
          (case read_excel w stored of
             Inl e \<Rightarrow> (Inl e, w)
           | Inr df_existing \<Rightarrow>
               (Inr (), print (ResultsSaved file_path)
                          (w\<lparr>files := (files w)(file_path \<mapsto> Workbook (df_existing @ df))\<rparr>))))"

subsection \<open>\<open>get_names\<close>\<close>

fun get_human_readable_user_status :: "user_status \<Rightarrow> string" where
  "get_human_readable_user_status UserStatusOnline = ''Currently online''"
| "get_human_readable_user_status (UserStatusOffline was_online) = was_online"
| "get_human_readable_user_status UserStatusRecently = ''Last seen recently''"
| "get_human_readable_user_status UserStatusLastWeek = ''Last seen last week''"
| "get_human_readable_user_status UserStatusLastMonth = ''Last seen last month''"
| "get_human_readable_user_status UserStatusEmpty = ''Unknown''"

definition not_registered_msg :: string where
  "not_registered_msg =
     ''No response, the phone number is not on Telegram or has blocked contact adding.''"

definition multiple_msg :: string where
  "multiple_msg =
     ''This phone number matched multiple Telegram accounts, '' @ [CHR 0x0A] @
     ''            which is unexpected. Please contact the developer.''"

definition type_error_msg :: "exn \<Rightarrow> string \<Rightarrow> string" where
  "type_error_msg e phone_number =
     ''TypeError: '' @ exn_str e @
     ''. --> The error might have occurred due to the inability to delete the phone_number='' @
     repr_str phone_number @ '' from the contact list.''"

definition unexpected_msg :: "exn \<Rightarrow> string" where
  "unexpected_msg e = ''Unexpected error: '' @ exn_str e @ ''.''"

definition user_info :: "user \<Rightarrow> pydict" where
  "user_info u =
     [(''id'', PInt (user_id u)),
      (''username'', username u),
      (''usernames'', usernames u),
      (''first_name'', first_name u),
      (''last_name'', last_name u),
      (''fake'', fake u),
      (''verified'', verified u),
      (''premium'', premium u),
      (''mutual_contact'', mutual_contact u),
      (''bot'', bot u),
      (''bot_chat_history'', bot_chat_history u),
      (''restricted'', restricted u),
      (''restriction_reason'', restriction_reason u),
      (''user_was_online'', PStr (get_human_readable_user_status (status u))),
      (''phone'', phone u)]"

definition get_names_try :: "world \<Rightarrow> string \<Rightarrow> ((exn + pydict) \<times> world) option" where
  \<comment> \<open>The \<open>try\<close> block: \<open>Inl e\<close> when it raises \<open>e\<close>, \<open>Inr result\<close> when it completes.
      \<open>result\<close> is empty before its one \<open>update\<close>, so it becomes the dictionary given.\<close>
  "get_names_try w phone_number =
     (case request w (ImportContactsRequest phone_number) of
        None \<Rightarrow> None
      | Some (Raises e, w1) \<Rightarrow> Some (Inl e, w1)
      | Some (Users users, w1) \<Rightarrow>
          (let number_of_matches = length users in
           if number_of_matches = 0
           then Some (Inr [(''error'', PStr not_registered_msg)], w1)
           else if number_of_matches = 1
           then (case request w1 (DeleteContactsRequest [user_id (users ! 0)]) of
                   None \<Rightarrow> None
                 | Some (Raises e, w2) \<Rightarrow> Some (Inl e, w2)
                 | Some (Users response_users, w2) \<Rightarrow>
                     (case response_users of
                        [] \<Rightarrow> Some (Inl (IndexError ''list index out of range''), w2)
                      | u # us \<Rightarrow> Some (Inr (user_info u), w2)))
           else Some (Inr [(''error'', PStr multiple_msg)], w1)))"

text \<open>
  \<open>get_names\<close> returns the value of \<open>result\<close> in the call that ended the lookup, the
  exception it lets escape (if any; the caller then never sees \<open>result\<close>) and the world.
  The retry after a rate-limit signal is a nested call; when the interpreter's recursion
  limit leaves no room for it, the call raises \<open>RecursionError\<close>, which no handler around
  it catches. (Where exactly within the deepest call the interpreter gives up is not
  modelled: the exception is put at the call.)
\<close>

function get_names :: "world \<Rightarrow> string \<Rightarrow> (pydict \<times> exn option \<times> world) option" where
  "get_names w phone_number =
     (case get_names_try (print (Checking phone_number) w) phone_number of
        None \<Rightarrow> None
      | Some (Inr res, w1) \<Rightarrow> Some (res, None, print Done w1)
      | Some (Inl e, w1) \<Rightarrow>
          (case e of
             TypeError m \<Rightarrow>
               Some ([(''error'', PStr (type_error_msg e phone_number))], None, print Done w1)
           | FloodWaitError wait_time \<Rightarrow>
               (let w2 = sleep wait_time (print (RateLimitHit wait_time) w1) in
                if recursion_budget w2 = 0
                then Some ([], Some (RecursionError ''maximum recursion depth exceeded''), w2)
                else
                  (case get_names (w2\<lparr>recursion_budget := recursion_budget w2 - 1\<rparr>) phone_number of
                     None \<Rightarrow> None
                   | Some (res, x, w3) \<Rightarrow>
                       Some (res, x, w3\<lparr>recursion_budget := recursion_budget w2\<rparr>)))
           | _ \<Rightarrow> Some ([(''error'', PStr (unexpected_msg e))], Some e, w1)))"
  by pat_completeness auto
termination
proof (relation "measure (\<lambda>(w, p). length (rpc w))"; clarsimp)
  fix w :: world and phone_number w1 wait_time
  assume "get_names_try (print (Checking phone_number) w) phone_number
            = Some (Inl (FloodWaitError wait_time), w1)"
  then have "length (rpc w1) < length (rpc w)"
    by (auto simp: get_names_try_def request_def print_def Let_def
             split: list.splits reply.splits if_splits)
  then show "length (rpc (sleep wait_time (print (RateLimitHit wait_time) w1))) < length (rpc w)"
    by (simp add: sleep_def print_def)
qed

declare get_names.simps [simp del]

subsection \<open>\<open>validate_users\<close>\<close>

definition py_in :: "string \<Rightarrow> pyval \<Rightarrow> exn + bool" where
  \<comment> \<open>\<open>sub in v\<close> for a string \<open>sub\<close>: substring test on a string, membership in a list.\<close>
  "py_in sub v =
     (case v of
        PStr s \<Rightarrow> Inr (contains sub s)
      | PList vs \<Rightarrow> Inr (PStr sub \<in> set vs)
      | _ \<Rightarrow> Inl (TypeError ''argument is not iterable''))"

record loop_state =
  st_world :: world
  st_phone_number :: string
  st_result :: "string \<rightharpoonup> pydict"

datatype ctl = Continue loop_state | Break loop_state | Raise exn loop_state

definition delay :: int where
  "delay = 5"

definition validate_users_body :: "string \<Rightarrow> string \<Rightarrow> loop_state \<Rightarrow> ctl option" where
  \<comment> \<open>One pass through the body of \<open>while True\<close>: the loop goes on, breaks, or an
      exception leaves the function.\<close>
  "validate_users_body file_path excel_file st =
     (let pn = st_phone_number st in
      if st_result st pn \<noteq> None then Some (Continue st)
      else
        (case get_names (st_world st) pn of
           None \<Rightarrow> None
         | Some (d, Some e, w1) \<Rightarrow> Some (Raise e (st\<lparr>st_world := w1\<rparr>))
         | Some (d, None, w1) \<Rightarrow>
             (let res = (st_result st)(pn \<mapsto> d) in
              case map_of d ''error'' of
                Some err \<Rightarrow>
                  (let w2 = print (ErrorFor pn err) w1 in
                   case py_in ''not on Telegram'' err of
                     Inl e \<Rightarrow>
                       Some (Raise e \<lparr>st_world = w2, st_phone_number = pn, st_result = res\<rparr>)
                   | Inr True \<Rightarrow>
                       (case increment_phone_number pn of
                          Inl e \<Rightarrow>
                            Some (Raise e \<lparr>st_world = w2, st_phone_number = pn, st_result = res\<rparr>)
                        | Inr pn' \<Rightarrow>
                            Some (Continue
                              \<lparr>st_world = sleep delay (write_last_checked_number w2 file_path pn'),
                               st_phone_number = pn', st_result = res\<rparr>))
                   | Inr False \<Rightarrow>
                       Some (Break \<lparr>st_world = print (UnexpectedErrorFor pn err) w2,
                                    st_phone_number = pn, st_result = res\<rparr>))
              | None \<Rightarrow>
                  (case save_to_excel w1 excel_file d of
                     (Inl e, w2) \<Rightarrow>
                       Some (Raise e \<lparr>st_world = w2, st_phone_number = pn, st_result = res\<rparr>)
                   | (Inr u, w2) \<Rightarrow>
                       (case increment_phone_number pn of
                          Inl e \<Rightarrow>
                            Some (Raise e \<lparr>st_world = w2, st_phone_number = pn, st_result = res\<rparr>)
                        | Inr pn' \<Rightarrow>
                            Some (Continue
                              \<lparr>st_world = sleep delay (write_last_checked_number w2 file_path pn'),
                               st_phone_number = pn', st_result = res\<rparr>))))))"

fun validate_users_loop :: "nat \<Rightarrow> string \<Rightarrow> string \<Rightarrow> loop_state \<Rightarrow> ctl option" where
  \<comment> \<open>The state of the loop after at most \<open>n\<close> passes: \<open>Continue\<close> when it is still running.\<close>
  "validate_users_loop 0 file_path excel_file st = Some (Continue st)"
| "validate_users_loop (Suc n) file_path excel_file st =
     (case validate_users_body file_path excel_file st of
        Some (Continue st') \<Rightarrow> validate_users_loop n file_path excel_file st'
      | other \<Rightarrow> other)"

definition validate_users ::
  "nat \<Rightarrow> world \<Rightarrow> string \<Rightarrow> string \<Rightarrow> string \<Rightarrow> ((exn + (string \<rightharpoonup> pydict)) \<times> world) option" where
  \<comment> \<open>\<open>validate_users\<close> run for at most \<open>fuel\<close> passes: \<open>None\<close> when it has not returned by then.\<close>
  "validate_users fuel w phone_number file_path excel_file =
     (case validate_users_loop fuel file_path excel_file
             \<lparr>st_world = w, st_phone_number = phone_number, st_result = Map.empty\<rparr> of
        Some (Break st) \<Rightarrow> Some (Inr (st_result st), st_world st)
      | Some (Raise e st) \<Rightarrow> Some (Inl e, st_world st)
      | _ \<Rightarrow> None)"

subsection \<open>\<open>login\<close>\<close>

definition login_try :: "session \<Rightarrow> exn option" where
  \<comment> \<open>The \<open>try\<close> block of \<open>login\<close> for one client: \<open>None\<close> when it reaches \<open>return client\<close>.
      The inner \<open>try\<close> holds the prompt for the code and the first \<open>sign_in\<close>.\<close>
  "login_try s =
     (case connect_r s of
        Some e \<Rightarrow> Some e
      | None \<Rightarrow>
          (case is_user_authorized_r s of
             Inl e \<Rightarrow> Some e
           | Inr True \<Rightarrow> None
           | Inr False \<Rightarrow>
               (case send_code_request_r s of
                  Some e \<Rightarrow> Some e
                | None \<Rightarrow>
                    (case (case input_r s of Inl e \<Rightarrow> Some e | Inr code \<Rightarrow> sign_in_r s) of
                       None \<Rightarrow> None
                     | Some SessionPasswordNeededError \<Rightarrow>
                         (case getpass_r s of
                            Inl e \<Rightarrow> Some e
                          | Inr pw \<Rightarrow> sign_in_password_r s)
                     | Some e \<Rightarrow> Some e))))"

definition disconnect :: "proxy \<Rightarrow> world \<Rightarrow> world" where
  \<comment> \<open>\<open>await client.disconnect()\<close>, taken to complete without raising.\<close>
  "disconnect p w = w\<lparr>net_log := net_log w @ [Disconnect p]\<rparr>"

fun login_loop :: "world \<Rightarrow> proxy list \<Rightarrow> ((exn + client) \<times> world) option" where
  "login_loop w [] = Some (Inl (PyException ''All proxies failed''), w)"
| "login_loop w (p # ps) =
     (case sessions w of
        [] \<Rightarrow> None
      | s # ss \<Rightarrow>
          (let w1 = w\<lparr>sessions := ss, net_log := net_log w @ [Connect p]\<rparr> in
           case login_try s of
             None \<Rightarrow> Some (Inr (TelegramClient p), print Done w1)
           | Some e \<Rightarrow> login_loop (disconnect p (print (FailedToConnect p e) w1)) ps))"

definition login :: "world \<Rightarrow> proxy list \<Rightarrow> ((exn + client) \<times> world) option" where
  "login w proxies = login_loop (print LoggingIn w) proxies"

section \<open>Example data\<close>

text \<open>A user, a long numeral, four proxies and three client sessions, for the example runs below.\<close>

definition alice :: user where
  "alice =
     \<lparr>user_id = 777, username = PStr ''alice'', usernames = PNone, first_name = PStr ''Alice'',
      last_name = PNone, fake = PBool False, verified = PBool False, premium = PBool False,
      mutual_contact = PBool False, bot = PBool False, bot_chat_history = PBool False,
      restricted = PBool False, restriction_reason = PNone, status = UserStatusRecently,
      phone = PStr ''4912347''\<rparr>"

definition nines :: string where
  \<comment> \<open>4299 nines: with one more digit, a numeral at the conversion limit.\<close>
  "nines = replicate 4299 CHR ''9''"

definition proxy_a :: proxy where
  "proxy_a = \<lparr>proxy_type = SOCKS5, proxy_addr = ''10.0.0.1'', proxy_port = 1080, proxy_rdns = True,
               proxy_username = None, proxy_password = None\<rparr>"

definition proxy_b :: proxy where
  "proxy_b = \<lparr>proxy_type = HTTP, proxy_addr = ''10.0.0.2'', proxy_port = 8080, proxy_rdns = True,
               proxy_username = None, proxy_password = None\<rparr>"

definition proxy_c :: proxy where
  "proxy_c = \<lparr>proxy_type = HTTP, proxy_addr = ''10.0.0.3'', proxy_port = 3128, proxy_rdns = True,
               proxy_username = None, proxy_password = None\<rparr>"

definition proxy_d :: proxy where
  "proxy_d = \<lparr>proxy_type = SOCKS5, proxy_addr = ''10.0.0.4'', proxy_port = 1080, proxy_rdns = True,
               proxy_username = None, proxy_password = None\<rparr>"

definition refused :: session where
  \<comment> \<open>The connection is refused.\<close>
  "refused =
     \<lparr>connect_r = Some (PyException ''Connection refused''), is_user_authorized_r = Inr True,
      send_code_request_r = None, input_r = Inr [], sign_in_r = None, getpass_r = Inr [],
      sign_in_password_r = None\<rparr>"

definition wrong_code :: session where
  \<comment> \<open>Not authorized yet, and the code typed in is rejected.\<close>
  "wrong_code =
     \<lparr>connect_r = None, is_user_authorized_r = Inr False, send_code_request_r = None,
      input_r = Inr ''12345'',
      sign_in_r = Some (PyException ''The phone code entered was invalid''),
      getpass_r = Inr [], sign_in_password_r = None\<rparr>"

definition two_step :: session where
  \<comment> \<open>Not authorized yet; the code is accepted, a password is asked for and accepted.\<close>
  "two_step =
     \<lparr>connect_r = None, is_user_authorized_r = Inr False, send_code_request_r = None,
      input_r = Inr ''12345'', sign_in_r = Some SessionPasswordNeededError,
      getpass_r = Inr ''hunter2'', sign_in_password_r = None\<rparr>"

section \<open>Properties of the string and integer conversions\<close>

lemma digit_not_space: "is_digit c \<Longrightarrow> \<not> is_space c \<and> \<not> is_int_space c"
  by (auto simp: is_digit_def is_space_def is_int_space_def Let_def)

lemma digit_not_special:
  "is_digit c \<Longrightarrow> c \<noteq> CHR ''-'' \<and> c \<noteq> CHR ''+'' \<and> c \<noteq> CHR ''_'' \<and> c \<noteq> CHR 0x0A \<and> c \<noteq> CHR 0x0D"
  by (auto simp: is_digit_def)

lemma strip_with_id:
  assumes "s \<noteq> []" and "\<not> P (hd s)" and "\<not> P (last s)"
  shows "rev (dropWhile P (rev (dropWhile P s))) = s"
proof -
  from assms have "dropWhile P s = s"
    by (cases s) auto
  moreover from assms have "dropWhile P (rev s) = rev s"
    by (cases "rev s") (auto simp: hd_rev)
  ultimately show ?thesis
    by simp
qed

lemma strip_numeral: "is_numeral s \<Longrightarrow> strip s = s"
  unfolding strip_def
  by (rule strip_with_id) (auto simp: is_numeral_def list_all_iff digit_not_space)

lemma int_strip_numeral:
  "is_numeral s \<Longrightarrow> rev (dropWhile is_int_space (rev (dropWhile is_int_space s))) = s"
  by (rule strip_with_id) (auto simp: is_numeral_def list_all_iff digit_not_space)

lemma underscores_ok_digits: "s \<noteq> [] \<Longrightarrow> list_all is_digit s \<Longrightarrow> underscores_ok s"
  by (induction s rule: underscores_ok.induct) (auto simp: digit_not_special)

lemma filter_digits:
  "list_all is_digit s \<Longrightarrow> filter (\<lambda>x. x \<noteq> CHR ''_'') s = s \<and> filter is_digit s = s
     \<and> takeWhile (\<lambda>x. is_digit x \<or> x = CHR ''_'') s = s"
  by (induction s) (auto simp: digit_not_special)

lemma py_int_numeral:
  assumes "is_numeral s" and "length s \<le> max_str_digits"
  shows "py_int s = Inr (int (numeral_value s))"
proof -
  from assms(1) obtain c cs where s: "s = c # cs"
    by (cases s) (auto simp: is_numeral_def)
  from assms(1) have d: "list_all is_digit s" and "s \<noteq> []"
    by (auto simp: is_numeral_def)
  then have ok: "underscores_ok s"
    by (simp add: underscores_ok_digits)
  from d s have c: "c \<noteq> CHR ''-'' \<and> c \<noteq> CHR ''+''"
    using digit_not_special [of c] by simp
  have "\<not> max_str_digits < length s"
    using assms(2) by simp
  with ok c filter_digits [OF d] show ?thesis
    unfolding py_int_def int_strip_numeral [OF assms(1)] unfolding s
    by (simp add: Let_def)
qed

lemma py_int_too_long:
  assumes "is_numeral s" and "max_str_digits < length s"
  shows "py_int s =
           Inl (ValueError
                  (''Exceeds the limit (4300 digits) for integer string conversion: value has ''
                   @ str_nat (length s)
                   @ '' digits; use sys.set_int_max_str_digits() to increase the limit''))"
proof -
  from assms(1) obtain c cs where s: "s = c # cs"
    by (cases s) (auto simp: is_numeral_def)
  from assms(1) have d: "list_all is_digit s" and "s \<noteq> []"
    by (auto simp: is_numeral_def)
  then have ok: "underscores_ok s"
    by (simp add: underscores_ok_digits)
  from d s have c: "c \<noteq> CHR ''-'' \<and> c \<noteq> CHR ''+''"
    using digit_not_special [of c] by simp
  from assms(2) ok c filter_digits [OF d] show ?thesis
    unfolding py_int_def int_strip_numeral [OF assms(1)] unfolding s
    by (simp add: Let_def)
qed

lemma numeral_value_snoc: "numeral_value (s @ [c]) = 10 * numeral_value s + digit_val c"
  by (simp add: numeral_value_def)

lemma below_ten: "d < 10 \<Longrightarrow> d \<in> {0, 1, 2, 3, 4, 5, 6, 7, 8, 9::nat}"
  by auto

lemma digit_chr_digit: "d < 10 \<Longrightarrow> is_digit (digit_chr d)"
  by (drule below_ten) (auto simp: is_digit_def digit_chr_def)

lemma digit_val_chr: "d < 10 \<Longrightarrow> digit_val (digit_chr d) = d"
  by (drule below_ten) (auto simp: digit_val_def digit_chr_def)

lemma digit_chr_zero: "d < 10 \<Longrightarrow> digit_chr d = CHR ''0'' \<Longrightarrow> d = 0"
  by (drule below_ten) (auto simp: digit_chr_def)

lemma digit_val_less: "is_digit c \<Longrightarrow> digit_val c < 10"
  by (auto simp: is_digit_def digit_val_def)

lemma digit_chr_val: "is_digit c \<Longrightarrow> digit_chr (digit_val c) = c"
proof -
  assume c: "is_digit c"
  then have "digit_val c < 10"
    by (rule digit_val_less)
  then have "is_digit (digit_chr (digit_val c))"
    and "digit_val (digit_chr (digit_val c)) = digit_val c"
    by (simp_all add: digit_chr_digit digit_val_chr)
  with c have "(of_char (digit_chr (digit_val c)) :: nat) = of_char c"
    unfolding is_digit_def digit_val_def by arith
  then show ?thesis
    by (simp only: of_char_eq_iff)
qed

lemma str_nat_small: "n < 10 \<Longrightarrow> str_nat n = [digit_chr n]"
  by (subst str_nat.simps) simp

lemma str_nat_big: "10 \<le> n \<Longrightarrow> str_nat n = str_nat (n div 10) @ [digit_chr (n mod 10)]"
  by (subst str_nat.simps) simp

lemma str_nat_digits: "list_all is_digit (str_nat n)"
  by (induction n rule: str_nat.induct) (subst str_nat.simps, simp add: digit_chr_digit)

lemma str_nat_nonempty: "str_nat n \<noteq> []"
  by (subst str_nat.simps) simp

lemma str_nat_numeral: "is_numeral (str_nat n)"
  by (simp add: is_numeral_def str_nat_digits str_nat_nonempty)

lemma str_nat_value: "numeral_value (str_nat n) = n"
proof (induction n rule: str_nat.induct)
  case (1 n)
  show ?case
  proof (cases "n < 10")
    case True
    then show ?thesis
      by (simp add: str_nat_small numeral_value_def digit_val_chr)
  next
    case False
    with 1 show ?thesis
      by (simp add: str_nat_big numeral_value_snoc digit_val_chr)
  qed
qed

lemma str_nat_no_leading_zero: "0 < n \<Longrightarrow> hd (str_nat n) \<noteq> CHR ''0''"
proof (induction n rule: str_nat.induct)
  case (1 n)
  show ?case
  proof (cases "n < 10")
    case True
    with 1(2) show ?thesis
      by (auto simp: str_nat_small dest: digit_chr_zero)
  next
    case False
    then have "0 < n div 10"
      by simp
    with 1 False show ?thesis
      by (simp add: str_nat_big str_nat_nonempty)
  qed
qed

lemma str_nat_bound: "n < 10 ^ length (str_nat n)"
proof (induction n rule: str_nat.induct)
  case (1 n)
  show ?case
  proof (cases "n < 10")
    case True
    then show ?thesis
      by (simp add: str_nat_small)
  next
    case False
    with 1 have "n div 10 < 10 ^ length (str_nat (n div 10))"
      by simp
    then have "n < 10 * 10 ^ length (str_nat (n div 10))"
      by (simp add: less_mult_imp_div_less mult.commute div_less_iff_less_mult)
    with False show ?thesis
      by (simp add: str_nat_big)
  qed
qed

lemma str_nat_length_mono: "m \<le> n \<Longrightarrow> length (str_nat m) \<le> length (str_nat n)"
proof (induction n arbitrary: m rule: str_nat.induct)
  case (1 n)
  show ?case
  proof (cases "n < 10")
    case True
    with "1.prems" show ?thesis
      by (simp add: str_nat_small)
  next
    case big: False
    show ?thesis
    proof (cases "m < 10")
      case True
      with big show ?thesis
        by (simp add: str_nat_small str_nat_big)
    next
      case False
      from "1.prems" have "m div 10 \<le> n div 10"
        by (rule div_le_mono)
      with "1.IH" big have "length (str_nat (m div 10)) \<le> length (str_nat (n div 10))"
        by simp
      with False big show ?thesis
        by (simp add: str_nat_big)
    qed
  qed
qed

lemma str_nat_numeral_value:
  "is_numeral s \<Longrightarrow> hd s \<noteq> CHR ''0'' \<Longrightarrow> str_nat (numeral_value s) = s"
proof (induction s rule: rev_induct)
  case Nil
  then show ?case
    by (simp add: is_numeral_def)
next
  case (snoc c xs)
  from snoc.prems(1) have c: "is_digit c" and xs: "list_all is_digit xs"
    by (simp_all add: is_numeral_def)
  show ?case
  proof (cases "xs = []")
    case True
    with c show ?thesis
      by (simp add: numeral_value_def str_nat_small digit_val_less digit_chr_val)
  next
    case False
    with snoc.prems xs have num: "is_numeral xs" and hd: "hd xs \<noteq> CHR ''0''"
      by (simp_all add: is_numeral_def)
    from snoc.IH [OF num hd] have ih: "str_nat (numeral_value xs) = xs" .
    have pos: "0 < numeral_value xs"
    proof (rule ccontr)
      assume "\<not> 0 < numeral_value xs"
      then have "str_nat (numeral_value xs) = ''0''"
        by (simp add: str_nat_small digit_chr_def)
      with ih have "xs = ''0''"
        by simp
      with hd show False
        by simp
    qed
    have d: "digit_val c < 10"
      using c by (rule digit_val_less)
    from pos have "10 \<le> 10 * numeral_value xs + digit_val c"
      by simp
    then have "str_nat (10 * numeral_value xs + digit_val c) =
                 str_nat ((10 * numeral_value xs + digit_val c) div 10)
                 @ [digit_chr ((10 * numeral_value xs + digit_val c) mod 10)]"
      by (rule str_nat_big)
    with d ih c show ?thesis
      by (simp add: numeral_value_snoc digit_chr_val)
  qed
qed

lemma numeral_value_nines: "numeral_value (replicate k CHR ''9'') + 1 = 10 ^ k"
proof (induction k)
  case 0
  then show ?case
    by (simp add: numeral_value_def)
next
  case (Suc k)
  have "replicate (Suc k) CHR ''9'' = replicate k CHR ''9'' @ [CHR ''9'']"
    by (simp add: replicate_append_same)
  then have "numeral_value (replicate (Suc k) CHR ''9'') = 10 * numeral_value (replicate k CHR ''9'') + 9"
    by (simp only: numeral_value_snoc) (simp add: digit_val_def)
  with Suc show ?case
    by simp
qed

lemma increment_numeral_eq:
  assumes "is_numeral n" and "length n \<le> max_str_digits"
    and "length (str_nat (numeral_value n + 1)) \<le> max_str_digits"
  shows "increment_phone_number n = Inr (str_nat (numeral_value n + 1))"
  using assms
  by (simp add: increment_phone_number_def py_int_numeral str_int_def decimal_int_def nat_add_distrib)

lemma increment_numeral_overflow:
  assumes "is_numeral n" and "length n \<le> max_str_digits"
    and "max_str_digits < length (str_nat (numeral_value n + 1))"
  shows "increment_phone_number n =
           Inl (ValueError
                  (''Exceeds the limit (4300 digits) for integer string conversion; ''
                   @ ''use sys.set_int_max_str_digits() to increase the limit''))"
  using assms
  by (simp add: increment_phone_number_def py_int_numeral str_int_def nat_add_distrib)

lemma increment_all_nines:
  "increment_phone_number (replicate 4300 CHR ''9'') =
     Inl (ValueError
            (''Exceeds the limit (4300 digits) for integer string conversion; ''
             @ ''use sys.set_int_max_str_digits() to increase the limit''))"
proof -
  let ?n = "replicate 4300 CHR ''9''"
  have num: "is_numeral ?n"
    by (simp add: is_numeral_def list_all_iff is_digit_def)
  have len: "length ?n \<le> max_str_digits"
    by (simp add: max_str_digits_def)
  have "numeral_value ?n + 1 = 10 ^ 4300"
    by (rule numeral_value_nines)
  moreover have "(10::nat) ^ 4300 < 10 ^ length (str_nat (10 ^ 4300))"
    by (rule str_nat_bound)
  then have "4300 < length (str_nat (10 ^ 4300))"
    by (simp only: power_strict_increasing_iff)
  ultimately have "max_str_digits < length (str_nat (numeral_value ?n + 1))"
    by (simp only: max_str_digits_def)
  with num len show ?thesis
    by (rule increment_numeral_overflow)
qed

lemma nines_digit:
  assumes "is_digit c"
  shows "is_numeral (nines @ [c])" and "length (nines @ [c]) \<le> max_str_digits"
    and "hd (nines @ [c]) \<noteq> CHR ''0''"
  using assms
  by (simp_all add: nines_def is_numeral_def list_all_iff is_digit_def max_str_digits_def hd_append)

lemma increment_nines_digit:
  assumes "is_digit c" and "is_digit d" and "digit_val d = digit_val c + 1"
  shows "increment_phone_number (nines @ [c]) = Inr (nines @ [d])"
proof -
  have "numeral_value (nines @ [c]) + 1 = numeral_value (nines @ [d])"
    using assms(3) by (simp add: numeral_value_snoc)
  moreover have "str_nat (numeral_value (nines @ [d])) = nines @ [d]"
    using nines_digit(1,3) [OF assms(2)] by (rule str_nat_numeral_value)
  ultimately have s: "str_nat (numeral_value (nines @ [c]) + 1) = nines @ [d]"
    by simp
  then have "length (str_nat (numeral_value (nines @ [c]) + 1)) \<le> max_str_digits"
    using nines_digit(2) [OF assms(2)] by simp
  from increment_numeral_eq [OF nines_digit(1,2) [OF assms(1)] this] s show ?thesis
    by simp
qed

lemma nines_nine: "nines @ ''9'' = replicate 4300 CHR ''9''"
proof -
  have "replicate 4299 CHR ''9'' @ [CHR ''9''] = replicate (Suc 4299) CHR ''9''"
    by (simp only: replicate_append_same replicate_Suc)
  moreover have "Suc 4299 = 4300"
    by simp
  ultimately show ?thesis
    by (simp only: nines_def)
qed

lemmas str_eval =
  str_int_def decimal_int_def max_str_digits_def str_nat_small str_nat_big digit_chr_def
lemmas int_eval =
  py_int_def is_int_space_def is_digit_def numeral_value_def digit_val_def max_str_digits_def
  repr_str_def repr_char_def hex_digit_def underscores_ok.simps Let_def
lemmas numeral_eval = is_numeral_def is_digit_def

section \<open>Incrementing a phone number\<close>

text \<open>
  Claim C9, as amended. For every decimal numeral string \<open>n\<close> of at most 4300 digits whose
  successor has at most 4300 digits too, \<open>increment_phone_number n\<close> returns a decimal
  numeral string whose value is the value of \<open>n\<close> plus one, written without a leading
  zero: the decimal numeral of that integer.
\<close>

theorem increment_phone_number_numeral:
  assumes "is_numeral n" and "length n \<le> max_str_digits"
    and "length (str_nat (numeral_value n + 1)) \<le> max_str_digits"
  shows "increment_phone_number n = Inr (decimal_int (int (numeral_value n) + 1))
         \<and> (\<exists>r. increment_phone_number n = Inr r \<and> is_numeral r
                 \<and> numeral_value r = numeral_value n + 1 \<and> hd r \<noteq> CHR ''0'')"
proof -
  have eq: "increment_phone_number n = Inr (str_nat (numeral_value n + 1))"
    using assms by (rule increment_numeral_eq)
  have "decimal_int (int (numeral_value n) + 1) = str_nat (numeral_value n + 1)"
    by (simp add: decimal_int_def nat_add_distrib)
  moreover have "is_numeral (str_nat (numeral_value n + 1))"
    by (rule str_nat_numeral)
  moreover have "numeral_value (str_nat (numeral_value n + 1)) = numeral_value n + 1"
    by (rule str_nat_value)
  moreover have "hd (str_nat (numeral_value n + 1)) \<noteq> CHR ''0''"
    by (rule str_nat_no_leading_zero) simp
  ultimately show ?thesis
    using eq by simp
qed

theorem increment_phone_number_numeral_witness:
  "is_numeral ''4912345'' \<and> increment_phone_number ''4912345'' = Inr ''4912346''"
proof -
  have h: "is_numeral ''4912345''"
    by (simp add: numeral_eval)
  have v: "numeral_value ''4912345'' = 4912345"
    by (simp add: numeral_value_def digit_val_def)
  have h2: "length ''4912345'' \<le> max_str_digits"
    by (simp add: max_str_digits_def)
  have h3: "length (str_nat (numeral_value ''4912345'' + 1)) \<le> max_str_digits"
    by (simp add: v str_eval)
  from increment_phone_number_numeral [OF h h2 h3]
  have "increment_phone_number ''4912345'' = Inr (decimal_int (int (numeral_value ''4912345'') + 1))"
    by blast
  then show ?thesis
    using h by (simp add: v str_eval)
qed

theorem increment_phone_number_numeral_counterexample:
  "is_numeral (replicate 4300 CHR ''9'')
   \<and> increment_phone_number (replicate 4300 CHR ''9'') =
       Inl (ValueError
              (''Exceeds the limit (4300 digits) for integer string conversion; ''
               @ ''use sys.set_int_max_str_digits() to increase the limit''))"
proof -
  have "is_numeral (replicate 4300 CHR ''9'')"
    by (simp add: is_numeral_def list_all_iff is_digit_def)
  with increment_all_nines show ?thesis
    by simp
qed

section \<open>The cursor file\<close>

lemma universal_newlines_id: "CHR 0x0D \<notin> set s \<Longrightarrow> universal_newlines s = s"
  by (induction s) auto

lemma file_lines_single: "s \<noteq> [] \<Longrightarrow> CHR 0x0A \<notin> set s \<Longrightarrow> file_lines s = [s]"
proof (induction s)
  case Nil
  then show ?case by simp
next
  case (Cons c cs)
  then show ?case
    by (cases cs) auto
qed

lemma numeral_no_newline: "is_numeral s \<Longrightarrow> CHR 0x0D \<notin> set s \<and> CHR 0x0A \<notin> set s"
  by (auto simp: is_numeral_def list_all_iff dest: digit_not_special)

lemma readline_numeral: "is_numeral s \<Longrightarrow> readline (universal_newlines s) = s"
  using numeral_no_newline [of s]
  by (simp add: readline_def universal_newlines_id file_lines_single is_numeral_def)

text \<open>
  Claim C8. For every decimal numeral string \<open>c\<close>, writing \<open>c\<close> to the cursor file makes
  \<open>c\<close> the whole content of the file, and reading the file afterwards returns \<open>c\<close>.
\<close>

theorem cursor_round_trip:
  assumes "is_numeral c"
  shows "files (write_last_checked_number w file_path c) file_path = Some (Text c)
         \<and> read_last_checked_number (write_last_checked_number w file_path c) file_path = Inr c"
  using assms
  by (simp add: write_last_checked_number_def read_last_checked_number_def open_read_def
                readline_numeral strip_numeral)

theorem cursor_round_trip_witness:
  "is_numeral ''4912346''
   \<and> read_last_checked_number
        (write_last_checked_number world0 ''last_checked_number.txt'' ''4912346'')
        ''last_checked_number.txt'' = Inr ''4912346''"
proof -
  have h: "is_numeral ''4912346''"
    by (simp add: numeral_eval)
  from cursor_round_trip [OF h] show ?thesis
    using h by blast
qed

section \<open>Loading the proxy list\<close>

lemma read_proxy_lines_ok:
  assumes "\<forall>line \<in> set ls. 3 \<le> length (proxy_data_of line)
             \<longrightarrow> (\<exists>p. py_int (proxy_data_of line ! 2) = Inr p)"
  shows "\<exists>ps. read_proxy_lines w ls acc =
               (Inr (acc @ ps),
                w\<lparr>stdout := stdout w @ map SkippingLine (filter (\<lambda>l. length (proxy_data_of l) < 3) ls)\<rparr>)
            \<and> list_all2
                (\<lambda>l p. proxy_type p = (if lower (proxy_data_of l ! 0) = ''socks5'' then SOCKS5 else HTTP)
                      \<and> proxy_addr p = proxy_data_of l ! 1
                      \<and> py_int (proxy_data_of l ! 2) = Inr (proxy_port p)
                      \<and> proxy_rdns p)
                (filter (\<lambda>l. 3 \<le> length (proxy_data_of l)) ls) ps"
  using assms
proof (induction ls arbitrary: w acc)
  case Nil
  then show ?case by simp
next
  case (Cons l ls)
  show ?case
  proof (cases "length (proxy_data_of l) < 3")
    case True
    from Cons.prems have "\<forall>line \<in> set ls. 3 \<le> length (proxy_data_of line)
             \<longrightarrow> (\<exists>p. py_int (proxy_data_of line ! 2) = Inr p)"
      by simp
    from Cons.IH [OF this, of "print (SkippingLine l) w" acc] True show ?thesis
      by (auto simp: proxy_data_of_def [symmetric] print_def Let_def)
  next
    case False
    with Cons.prems obtain p where p: "py_int (proxy_data_of l ! 2) = Inr p"
      by auto
    from Cons.prems have rest: "\<forall>line \<in> set ls. 3 \<le> length (proxy_data_of line)
             \<longrightarrow> (\<exists>p. py_int (proxy_data_of line ! 2) = Inr p)"
      by simp
    let ?d = "\<lparr>proxy_type = (if lower (proxy_data_of l ! 0) = ''socks5'' then SOCKS5 else HTTP),
                     proxy_addr = proxy_data_of l ! 1,
                     proxy_port = p,
                     proxy_rdns = True,
                     proxy_username = (if length (proxy_data_of l) > 3 then Some (proxy_data_of l ! 3) else None),
                     proxy_password = (if length (proxy_data_of l) > 4 then Some (proxy_data_of l ! 4) else None)\<rparr>"
    from Cons.IH [OF rest, of w "acc @ [?d]"] obtain ps where
      ps: "read_proxy_lines w ls (acc @ [?d]) =
               (Inr ((acc @ [?d]) @ ps),
                w\<lparr>stdout := stdout w @ map SkippingLine (filter (\<lambda>l. length (proxy_data_of l) < 3) ls)\<rparr>)"
      and rel: "list_all2
                (\<lambda>l p. proxy_type p = (if lower (proxy_data_of l ! 0) = ''socks5'' then SOCKS5 else HTTP)
                      \<and> proxy_addr p = proxy_data_of l ! 1
                      \<and> py_int (proxy_data_of l ! 2) = Inr (proxy_port p)
                      \<and> proxy_rdns p)
                (filter (\<lambda>l. 3 \<le> length (proxy_data_of l)) ls) ps"
      by blast
    have "read_proxy_lines w (l # ls) acc = read_proxy_lines w ls (acc @ [?d])"
      using False p by (simp add: proxy_data_of_def [symmetric] Let_def)
    with ps rel False p show ?thesis
      by (intro exI [of _ "?d # ps"]) simp
  qed
qed

lemma read_proxy_lines_raises:
  assumes "line \<in> set ls" and "3 \<le> length (proxy_data_of line)"
    and "py_int (proxy_data_of line ! 2) = Inl e"
  shows "\<exists>e' w'. read_proxy_lines w ls acc = (Inl e', w')"
  using assms
proof (induction ls arbitrary: w acc)
  case Nil
  then show ?case by simp
next
  case (Cons l ls)
  show ?case
  proof (cases "l = line")
    case True
    with Cons.prems show ?thesis
      by (simp add: proxy_data_of_def [symmetric] Let_def)
  next
    case False
    with Cons.prems have "line \<in> set ls"
      by simp
    from Cons.IH [OF this Cons.prems(2,3)] show ?thesis
      by (simp add: proxy_data_of_def [symmetric] Let_def split: sum.split)
  qed
qed

lemmas line_eval =
  proxy_data_of_def strip_def is_space_def lower_def lower_char_def

text \<open>
  Claim C5, as amended. When every line of the proxy file that has at least three
  comma-separated fields has a third field that \<open>int\<close> accepts, \<open>read_proxy_settings\<close>
  returns one descriptor for each such line, in order: its kind is SOCKS5 exactly when
  the first field in lower case is \<open>socks5\<close> and HTTP otherwise, its host is the second
  field, its port the integer of the third, and remote DNS resolution is requested.
  Each line with fewer than three fields is skipped with a warning, and no file changes.
\<close>

theorem read_proxy_settings_descriptors:
  assumes "files w file_path = Some (Text content)"
    and "\<forall>line \<in> set (file_lines (universal_newlines content)).
           3 \<le> length (proxy_data_of line) \<longrightarrow> (\<exists>p. py_int (proxy_data_of line ! 2) = Inr p)"
  shows "\<exists>ps w'. read_proxy_settings w file_path = (Inr ps, w')
           \<and> files w' = files w
           \<and> stdout w' = stdout w @ map SkippingLine
                 (filter (\<lambda>l. length (proxy_data_of l) < 3) (file_lines (universal_newlines content)))
           \<and> list_all2
                (\<lambda>l p. proxy_type p = (if lower (proxy_data_of l ! 0) = ''socks5'' then SOCKS5 else HTTP)
                      \<and> proxy_addr p = proxy_data_of l ! 1
                      \<and> py_int (proxy_data_of l ! 2) = Inr (proxy_port p)
                      \<and> proxy_rdns p)
                (filter (\<lambda>l. 3 \<le> length (proxy_data_of l)) (file_lines (universal_newlines content)))
                ps"
proof -
  from read_proxy_lines_ok [OF assms(2), of w "[]"] obtain ps where
    run: "read_proxy_lines w (file_lines (universal_newlines content)) [] =
            (Inr ps, w\<lparr>stdout := stdout w @ map SkippingLine
                 (filter (\<lambda>l. length (proxy_data_of l) < 3) (file_lines (universal_newlines content)))\<rparr>)"
    and rel: "list_all2
                (\<lambda>l p. proxy_type p = (if lower (proxy_data_of l ! 0) = ''socks5'' then SOCKS5 else HTTP)
                      \<and> proxy_addr p = proxy_data_of l ! 1
                      \<and> py_int (proxy_data_of l ! 2) = Inr (proxy_port p)
                      \<and> proxy_rdns p)
                (filter (\<lambda>l. 3 \<le> length (proxy_data_of l)) (file_lines (universal_newlines content)))
                ps"
    by auto
  from assms(1) run have "read_proxy_settings w file_path =
            (Inr ps, w\<lparr>stdout := stdout w @ map SkippingLine
                 (filter (\<lambda>l. length (proxy_data_of l) < 3) (file_lines (universal_newlines content)))\<rparr>)"
    by (simp add: read_proxy_settings_def open_read_def)
  with rel show ?thesis
    by simp
qed

theorem read_proxy_settings_descriptors_witness:
  "\<exists>ps w'. read_proxy_settings
              (world0\<lparr>files := [''proxy.txt'' \<mapsto>
                 Text (''SOCKS5,10.0.0.1,1080,alice,secret\<newline>no proxy here\<newline>http,proxy.example,8080'')]\<rparr>)
              ''proxy.txt'' = (Inr ps, w')
           \<and> length ps = 2
           \<and> stdout w' = [SkippingLine (''no proxy here\<newline>'')]"
proof -
  let ?c = "''SOCKS5,10.0.0.1,1080,alice,secret\<newline>no proxy here\<newline>http,proxy.example,8080''"
  let ?w = "world0\<lparr>files := [''proxy.txt'' \<mapsto> Text ?c]\<rparr>"
  have ls: "file_lines (universal_newlines ?c) =
              [''SOCKS5,10.0.0.1,1080,alice,secret\<newline>'', ''no proxy here\<newline>'',
               ''http,proxy.example,8080'']"
    by simp
  have d1: "proxy_data_of (''SOCKS5,10.0.0.1,1080,alice,secret\<newline>'') =
              [''SOCKS5'', ''10.0.0.1'', ''1080'', ''alice'', ''secret'']"
    by (simp add: line_eval)
  have d2: "proxy_data_of (''no proxy here\<newline>'') = [''no proxy here'']"
    by (simp add: line_eval)
  have d3: "proxy_data_of ''http,proxy.example,8080'' = [''http'', ''proxy.example'', ''8080'']"
    by (simp add: line_eval)
  have p1: "py_int ''1080'' = Inr 1080" and p3: "py_int ''8080'' = Inr 8080"
    by (simp_all add: int_eval)
  have h1: "files ?w ''proxy.txt'' = Some (Text ?c)"
    by simp
  have h2: "\<forall>line \<in> set (file_lines (universal_newlines ?c)).
           3 \<le> length (proxy_data_of line) \<longrightarrow> (\<exists>p. py_int (proxy_data_of line ! 2) = Inr p)"
    unfolding ls by (simp add: d1 d2 d3 p1 p3)
  from read_proxy_settings_descriptors [OF h1 h2] obtain ps w' where
    "read_proxy_settings ?w ''proxy.txt'' = (Inr ps, w')"
    "stdout w' = stdout ?w @ map SkippingLine
                 (filter (\<lambda>l. length (proxy_data_of l) < 3) (file_lines (universal_newlines ?c)))"
    "list_all2
                (\<lambda>l p. proxy_type p = (if lower (proxy_data_of l ! 0) = ''socks5'' then SOCKS5 else HTTP)
                      \<and> proxy_addr p = proxy_data_of l ! 1
                      \<and> py_int (proxy_data_of l ! 2) = Inr (proxy_port p)
                      \<and> proxy_rdns p)
                (filter (\<lambda>l. 3 \<le> length (proxy_data_of l)) (file_lines (universal_newlines ?c)))
                ps"
    by blast
  then have "read_proxy_settings ?w ''proxy.txt'' = (Inr ps, w') \<and> length ps = 2
             \<and> stdout w' = [SkippingLine (''no proxy here\<newline>'')]"
    unfolding ls by (auto simp: d1 d2 d3 world0_def dest: list_all2_lengthD)
  then show ?thesis
    by blast
qed

theorem read_proxy_settings_counterexample:
  "length (proxy_data_of ''http,10.0.0.1,eighty'') = 3
   \<and> fst (read_proxy_settings (world0\<lparr>files := [''proxy.txt'' \<mapsto> Text ''http,10.0.0.1,eighty'']\<rparr>)
            ''proxy.txt'')
     = Inl (ValueError (''invalid literal for int() with base 10: '' @ [CHR 0x27] @ ''eighty'' @ [CHR 0x27]))"
proof -
  have d: "proxy_data_of ''http,10.0.0.1,eighty'' = [''http'', ''10.0.0.1'', ''eighty'']"
    by (simp add: line_eval)
  have p: "py_int ''eighty'' =
             Inl (ValueError (''invalid literal for int() with base 10: '' @ [CHR 0x27] @ ''eighty'' @ [CHR 0x27]))"
    by (simp add: int_eval)
  show ?thesis
    by (simp add: d p read_proxy_settings_def open_read_def proxy_data_of_def [symmetric])
qed

text \<open>
  Claim C10. When some line of the proxy file has at least three comma-separated fields
  and a third field that \<open>int\<close> rejects, \<open>read_proxy_settings\<close> raises: it returns no
  descriptors, neither for that line nor for the others.
\<close>

theorem read_proxy_settings_bad_port:
  assumes "files w file_path = Some (Text content)"
    and "line \<in> set (file_lines (universal_newlines content))"
    and "3 \<le> length (proxy_data_of line)"
    and "py_int (proxy_data_of line ! 2) = Inl e"
  shows "\<exists>e' w'. read_proxy_settings w file_path = (Inl e', w')"
  using read_proxy_lines_raises [OF assms(2-4), of w "[]"] assms(1)
  by (simp add: read_proxy_settings_def open_read_def)

theorem read_proxy_settings_bad_port_witness:
  "\<exists>e' w'. read_proxy_settings
              (world0\<lparr>files := [''proxy.txt'' \<mapsto>
                 Text (''socks5,10.0.0.1,1080\<newline>http,10.0.0.2,80a\<newline>http,10.0.0.3,3128\<newline>'')]\<rparr>)
              ''proxy.txt'' = (Inl e', w')"
proof -
  let ?c = "''socks5,10.0.0.1,1080\<newline>http,10.0.0.2,80a\<newline>http,10.0.0.3,3128\<newline>''"
  let ?w = "world0\<lparr>files := [''proxy.txt'' \<mapsto> Text ?c]\<rparr>"
  have h1: "files ?w ''proxy.txt'' = Some (Text ?c)"
    by simp
  have h2: "''http,10.0.0.2,80a\<newline>'' \<in> set (file_lines (universal_newlines ?c))"
    by simp
  have d: "proxy_data_of (''http,10.0.0.2,80a\<newline>'') = [''http'', ''10.0.0.2'', ''80a'']"
    by (simp add: line_eval)
  have h3: "3 \<le> length (proxy_data_of (''http,10.0.0.2,80a\<newline>''))"
    by (simp add: d)
  have h4: "py_int (proxy_data_of (''http,10.0.0.2,80a\<newline>'') ! 2) =
              Inl (ValueError (''invalid literal for int() with base 10: '' @ [CHR 0x27] @ ''80a'' @ [CHR 0x27]))"
    by (simp add: d int_eval)
  from read_proxy_settings_bad_port [OF h1 h2 h3 h4] show ?thesis .
qed

section \<open>One lookup\<close>

lemma get_names_try_frame:
  assumes "get_names_try w p = Some (r, w')"
  shows "files w' = files w \<and> stdout w' = stdout w \<and> sleeps w' = sleeps w
         \<and> sessions w' = sessions w \<and> net_log w' = net_log w
         \<and> read_excel w' = read_excel w \<and> recursion_budget w' = recursion_budget w
         \<and> length (rpc w') < length (rpc w)"
  using assms
  by (auto simp: get_names_try_def request_def Let_def
           split: list.splits reply.splits if_splits)

lemma get_names_blocked:
  "get_names_try (print (Checking p) w) p = None \<Longrightarrow> get_names w p = None"
  by (subst get_names.simps) simp

lemma get_names_returns:
  "get_names_try (print (Checking p) w) p = Some (Inr res, w1)
   \<Longrightarrow> get_names w p = Some (res, None, print Done w1)"
  by (subst get_names.simps) simp

lemma get_names_type_error:
  "get_names_try (print (Checking p) w) p = Some (Inl (TypeError m), w1)
   \<Longrightarrow> get_names w p = Some ([(''error'', PStr (type_error_msg (TypeError m) p))], None, print Done w1)"
  by (subst get_names.simps) simp

lemma get_names_flood_exhausted:
  assumes "get_names_try (print (Checking p) w) p = Some (Inl (FloodWaitError s), w1)"
    and "recursion_budget w = 0"
  shows "get_names w p =
           Some ([], Some (RecursionError ''maximum recursion depth exceeded''),
                 sleep s (print (RateLimitHit s) w1))"
proof -
  from get_names_try_frame [OF assms(1)] assms(2) have "recursion_budget w1 = 0"
    by (simp add: print_def)
  with assms(1) show ?thesis
    by (subst get_names.simps) (simp add: sleep_def print_def Let_def)
qed

lemma get_names_flood:
  assumes "get_names_try (print (Checking p) w) p = Some (Inl (FloodWaitError s), w1)"
    and "0 < recursion_budget w"
  shows "get_names w p =
           (case get_names ((sleep s (print (RateLimitHit s) w1))
                              \<lparr>recursion_budget := recursion_budget w - 1\<rparr>) p of
              None \<Rightarrow> None
            | Some (res, x, w3) \<Rightarrow> Some (res, x, w3\<lparr>recursion_budget := recursion_budget w\<rparr>))"
proof -
  from get_names_try_frame [OF assms(1)] have "recursion_budget w1 = recursion_budget w"
    by (simp add: print_def)
  with assms show ?thesis
    by (subst get_names.simps) (simp add: sleep_def print_def Let_def split: option.split)
qed

lemma get_names_reraises:
  assumes "get_names_try (print (Checking p) w) p = Some (Inl e, w1)"
    and "\<forall>m. e \<noteq> TypeError m" and "\<forall>s. e \<noteq> FloodWaitError s"
  shows "get_names w p = Some ([(''error'', PStr (unexpected_msg e))], Some e, w1)"
  using assms by (subst get_names.simps) (cases e; simp)

lemma get_names_cases:
  assumes "get_names w p = Some (d, x, w')"
  shows "files w' = files w
         \<and> (case x of
               Some e \<Rightarrow> (d = [(''error'', PStr (unexpected_msg e))] \<or> d = [])
                          \<and> (\<forall>m. e \<noteq> TypeError m) \<and> (\<forall>s. e \<noteq> FloodWaitError s)
             | None \<Rightarrow> d = [(''error'', PStr not_registered_msg)]
                        \<or> d = [(''error'', PStr multiple_msg)]
                        \<or> (\<exists>m. d = [(''error'', PStr (type_error_msg (TypeError m) p))])
                        \<or> (\<exists>u. d = user_info u))"
  using assms
proof (induction "length (rpc w)" arbitrary: w d x w' rule: less_induct)
  case less
  show ?case
  proof (cases "get_names_try (print (Checking p) w) p")
    case None
    with less.prems show ?thesis
      by (simp add: get_names_blocked)
  next
    case (Some a)
    obtain r w1 where a: "a = (r, w1)"
      by (cases a)
    from Some a have t: "get_names_try (print (Checking p) w) p = Some (r, w1)"
      by simp
    from get_names_try_frame [OF t] have fr: "files w1 = files w"
      and shorter: "length (rpc w1) < length (rpc w)"
      by (simp_all add: print_def)
    show ?thesis
    proof (cases r)
      case (Inr res)
      from t Inr have "res = [(''error'', PStr not_registered_msg)]
                        \<or> res = [(''error'', PStr multiple_msg)] \<or> (\<exists>u. res = user_info u)"
        by (auto simp: get_names_try_def request_def Let_def
                 split: list.splits reply.splits if_splits)
      with less.prems t Inr fr show ?thesis
        by (auto simp: get_names_returns print_def)
    next
      case (Inl e)
      show ?thesis
      proof (cases "\<exists>s. e = FloodWaitError s")
        case True
        then obtain s where e: "e = FloodWaitError s" ..
        from t Inl e have tf: "get_names_try (print (Checking p) w) p = Some (Inl (FloodWaitError s), w1)"
          by simp
        show ?thesis
        proof (cases "recursion_budget w = 0")
          case True
          from get_names_flood_exhausted [OF tf True] less.prems fr show ?thesis
            by (auto simp: sleep_def print_def)
        next
          case False
          let ?w2 = "(sleep s (print (RateLimitHit s) w1))\<lparr>recursion_budget := recursion_budget w - 1\<rparr>"
          from False have "0 < recursion_budget w"
            by simp
          from get_names_flood [OF tf this] less.prems
          obtain w3 where inner: "get_names ?w2 p = Some (d, x, w3)"
            and w': "w' = w3\<lparr>recursion_budget := recursion_budget w\<rparr>"
            by (auto split: option.splits)
          have "length (rpc ?w2) < length (rpc w)"
            using shorter by (simp add: sleep_def print_def)
          from less.hyps [OF this inner] fr w' show ?thesis
            by (simp add: sleep_def print_def)
        qed
      next
        case False
        show ?thesis
        proof (cases "\<exists>m. e = TypeError m")
          case True
          then obtain m where e: "e = TypeError m" ..
          from t Inl e have "get_names_try (print (Checking p) w) p = Some (Inl (TypeError m), w1)"
            by simp
          from get_names_type_error [OF this] less.prems fr show ?thesis
            by (auto simp: print_def)
        next
          case nt: False
          from t Inl have "get_names_try (print (Checking p) w) p = Some (Inl e, w1)"
            by simp
          from get_names_reraises [OF this] False nt less.prems fr show ?thesis
            by auto
        qed
      qed
    qed
  qed
qed

lemma get_names_retry_once:
  assumes "get_names_try (print (Checking p) w) p = Some (Inl (FloodWaitError s), w1)"
    and "0 < recursion_budget w"
    and "get_names_try (print (Checking p)
           ((sleep s (print (RateLimitHit s) w1))\<lparr>recursion_budget := recursion_budget w - 1\<rparr>)) p
         = Some (Inr res, w2)"
  shows "get_names w p = Some (res, None, (print Done w2)\<lparr>recursion_budget := recursion_budget w\<rparr>)
         \<and> sleeps w2 = sleeps w @ [s]"
proof -
  from get_names_try_frame [OF assms(1)] get_names_try_frame [OF assms(3)]
  have "sleeps w2 = sleeps w @ [s]"
    by (simp add: sleep_def print_def)
  with get_names_flood [OF assms(1,2)] get_names_returns [OF assms(3)] show ?thesis
    by simp
qed

lemma get_names_floods_exhaust:
  assumes "rpc w = map (\<lambda>s. Raises (FloodWaitError s)) ss @ rest"
    and "length ss = Suc (recursion_budget w)"
  shows "get_names w p =
           Some ([], Some (RecursionError ''maximum recursion depth exceeded''),
                 w\<lparr>stdout := stdout w @ concat (map (\<lambda>s. [Checking p, RateLimitHit s]) ss),
                   sleeps := sleeps w @ ss,
                   rpc := rest,
                   sent := sent w @ replicate (length ss) (ImportContactsRequest p)\<rparr>)"
  using assms
proof (induction ss arbitrary: w)
  case Nil
  then show ?case
    by simp
next
  case (Cons s ss)
  let ?w1 = "w\<lparr>stdout := stdout w @ [Checking p], rpc := map (\<lambda>s. Raises (FloodWaitError s)) ss @ rest,
               sent := sent w @ [ImportContactsRequest p]\<rparr>"
  from Cons.prems(1) have t: "get_names_try (print (Checking p) w) p = Some (Inl (FloodWaitError s), ?w1)"
    by (simp add: get_names_try_def request_def print_def)
  show ?case
  proof (cases "recursion_budget w = 0")
    case True
    with Cons.prems(2) have "ss = []"
      by simp
    with get_names_flood_exhausted [OF t True] show ?thesis
      by (simp add: sleep_def print_def)
  next
    case False
    then have pos: "0 < recursion_budget w"
      by simp
    let ?w2 = "(sleep s (print (RateLimitHit s) ?w1))\<lparr>recursion_budget := recursion_budget w - 1\<rparr>"
    have "rpc ?w2 = map (\<lambda>s. Raises (FloodWaitError s)) ss @ rest"
      by (simp add: sleep_def print_def)
    moreover have "length ss = Suc (recursion_budget ?w2)"
      using Cons.prems(2) pos by (simp add: sleep_def print_def)
    ultimately have "get_names ?w2 p =
           Some ([], Some (RecursionError ''maximum recursion depth exceeded''),
                 ?w2\<lparr>stdout := stdout ?w2 @ concat (map (\<lambda>s. [Checking p, RateLimitHit s]) ss),
                   sleeps := sleeps ?w2 @ ss,
                   rpc := rest,
                   sent := sent ?w2 @ replicate (length ss) (ImportContactsRequest p)\<rparr>)"
      by (rule Cons.IH)
    with get_names_flood [OF t pos] show ?thesis
      by (simp add: sleep_def print_def replicate_append_same)
  qed
qed

lemmas world_eval = world0_def print_def sleep_def request_def get_names_try_def

text \<open>
  Claim C3. What \<open>get_names\<close> does with rate-limit signals that follow one another: each
  is slept out and retried by a nested call, so only as many are waited out as the
  interpreter's recursion limit leaves room for. When the service sends one signal more
  than nested calls fit, \<open>get_names\<close> has slept for each of them and then raises
  \<open>RecursionError\<close> instead of looking the number up again, and \<open>validate_users\<close> ends
  with that exception.
\<close>

theorem get_names_recursion_limit:
  assumes "rpc w = map (\<lambda>s. Raises (FloodWaitError s)) ss @ rest"
    and "length ss = Suc (recursion_budget w)"
  shows "get_names w p =
           Some ([], Some (RecursionError ''maximum recursion depth exceeded''),
                 w\<lparr>stdout := stdout w @ concat (map (\<lambda>s. [Checking p, RateLimitHit s]) ss),
                   sleeps := sleeps w @ ss,
                   rpc := rest,
                   sent := sent w @ replicate (length ss) (ImportContactsRequest p)\<rparr>)
         \<and> validate_users (Suc k) w p file_path excel_file =
           Some (Inl (RecursionError ''maximum recursion depth exceeded''),
                 w\<lparr>stdout := stdout w @ concat (map (\<lambda>s. [Checking p, RateLimitHit s]) ss),
                   sleeps := sleeps w @ ss,
                   rpc := rest,
                   sent := sent w @ replicate (length ss) (ImportContactsRequest p)\<rparr>)"
proof -
  let ?w' = "w\<lparr>stdout := stdout w @ concat (map (\<lambda>s. [Checking p, RateLimitHit s]) ss),
                   sleeps := sleeps w @ ss,
                   rpc := rest,
                   sent := sent w @ replicate (length ss) (ImportContactsRequest p)\<rparr>"
  have g: "get_names w p = Some ([], Some (RecursionError ''maximum recursion depth exceeded''), ?w')"
    using assms by (rule get_names_floods_exhaust)
  then have "validate_users_body file_path excel_file
               \<lparr>st_world = w, st_phone_number = p, st_result = Map.empty\<rparr> =
             Some (Raise (RecursionError ''maximum recursion depth exceeded'')
                     \<lparr>st_world = ?w', st_phone_number = p, st_result = Map.empty\<rparr>)"
    by (simp add: validate_users_body_def Let_def)
  with g show ?thesis
    by (simp add: validate_users_def)
qed

theorem get_names_recursion_limit_witness:
  "get_names (world0\<lparr>rpc := map (\<lambda>s. Raises (FloodWaitError s)) (replicate 991 3) @ [Users []]\<rparr>)
     ''4912345'' =
     Some ([], Some (RecursionError ''maximum recursion depth exceeded''),
           world0\<lparr>stdout := concat (map (\<lambda>s. [Checking ''4912345'', RateLimitHit s]) (replicate 991 3)),
                   sleeps := replicate 991 3,
                   rpc := [Users []],
                   sent := replicate 991 (ImportContactsRequest ''4912345'')\<rparr>)"
proof -
  let ?w = "world0\<lparr>rpc := map (\<lambda>s. Raises (FloodWaitError s)) (replicate 991 3) @ [Users []]\<rparr>"
  have h1: "rpc ?w = map (\<lambda>s. Raises (FloodWaitError s)) (replicate 991 3) @ [Users []]"
    by simp
  have h2: "length (replicate 991 (3::int)) = Suc (recursion_budget ?w)"
    by (simp add: world0_def)
  have "get_names ?w ''4912345'' =
          Some ([], Some (RecursionError ''maximum recursion depth exceeded''),
                ?w\<lparr>stdout := stdout ?w @ concat (map (\<lambda>s. [Checking ''4912345'', RateLimitHit s]) (replicate 991 3)),
                   sleeps := sleeps ?w @ replicate 991 3,
                   rpc := [Users []],
                   sent := sent ?w @ replicate (length (replicate 991 (3::int))) (ImportContactsRequest ''4912345'')\<rparr>)"
    using get_names_recursion_limit [OF h1 h2] by blast
  moreover have "stdout ?w = []" and "sleeps ?w = []" and "sent ?w = []"
    by (simp_all add: world0_def)
  ultimately show ?thesis
    by (simp only: length_replicate append_Nil) (simp add: world0_def)
qed

text \<open>
  Claim C4. When the attempt of a lookup raises an exception that is neither a
  \<open>TypeError\<close> nor the rate-limit signal, \<open>get_names\<close> records the error in its result and
  lets the same exception escape; \<open>validate_users\<close> then stops with that exception, the
  number it was checking is unchanged, and no file (cursor or result store) is written.
\<close>

theorem get_names_unexpected_failure:
  assumes "get_names_try (print (Checking p) w) p = Some (Inl e, w1)"
    and "\<forall>m. e \<noteq> TypeError m" and "\<forall>s. e \<noteq> FloodWaitError s"
  shows "get_names w p = Some ([(''error'', PStr (unexpected_msg e))], Some e, w1)
         \<and> (st_world st = w \<and> st_phone_number st = p \<and> st_result st p = None \<longrightarrow>
              validate_users_loop (Suc k) file_path excel_file st = Some (Raise e (st\<lparr>st_world := w1\<rparr>)))
         \<and> validate_users (Suc k) w p file_path excel_file = Some (Inl e, w1)
         \<and> files w1 = files w"
proof -
  have g: "get_names w p = Some ([(''error'', PStr (unexpected_msg e))], Some e, w1)"
    using assms by (rule get_names_reraises)
  have body: "validate_users_body file_path excel_file st = Some (Raise e (st\<lparr>st_world := w1\<rparr>))"
    if "st_world st = w" "st_phone_number st = p" "st_result st p = None" for st
    using that g by (simp add: validate_users_body_def)
  from get_names_try_frame [OF assms(1)] have "files w1 = files w"
    by (simp add: print_def)
  with g body show ?thesis
    by (simp add: validate_users_def)
qed

theorem get_names_unexpected_failure_witness:
  "validate_users 1 (world0\<lparr>rpc := [Raises (PyException ''Connection reset'')]\<rparr>) ''4912345''
     ''last_checked_number.txt'' ''results.xlsx''
   = Some (Inl (PyException ''Connection reset''),
           world0\<lparr>stdout := [Checking ''4912345''], sent := [ImportContactsRequest ''4912345'']\<rparr>)"
proof -
  let ?w = "world0\<lparr>rpc := [Raises (PyException ''Connection reset'')]\<rparr>"
  let ?w1 = "world0\<lparr>stdout := [Checking ''4912345''], sent := [ImportContactsRequest ''4912345'']\<rparr>"
  have h1: "get_names_try (print (Checking ''4912345'') ?w) ''4912345'' =
              Some (Inl (PyException ''Connection reset''), ?w1)"
    by (simp add: world_eval)
  have h2: "\<forall>m. PyException ''Connection reset'' \<noteq> TypeError m"
    and h3: "\<forall>s. PyException ''Connection reset'' \<noteq> FloodWaitError s"
    by simp_all
  from get_names_unexpected_failure [OF h1 h2 h3, of _ 0 "''last_checked_number.txt''" "''results.xlsx''"]
  show ?thesis
    by simp
qed

section \<open>The validation loop\<close>

lemma not_registered_phrase: "contains ''not on Telegram'' not_registered_msg"
  by (simp add: not_registered_msg_def)

lemma multiple_phrase: "\<not> contains ''not on Telegram'' multiple_msg"
  by (simp add: multiple_msg_def)

lemma user_info_no_error: "map_of (user_info u) ''error'' = None"
  by (simp add: user_info_def)

lemma increment_numeral_next:
  assumes "is_numeral p" and "length p \<le> max_str_digits"
    and "length (str_nat (numeral_value p + 1)) \<le> max_str_digits"
  shows "increment_phone_number p = Inr (str_nat (numeral_value p + 1))"
    and "is_numeral (str_nat (numeral_value p + 1))"
    and "numeral_value (str_nat (numeral_value p + 1)) = numeral_value p + 1"
    and "str_nat (numeral_value p + 1) \<noteq> p"
proof -
  show "increment_phone_number p = Inr (str_nat (numeral_value p + 1))"
    using assms by (rule increment_numeral_eq)
  show "is_numeral (str_nat (numeral_value p + 1))"
    by (rule str_nat_numeral)
  show v: "numeral_value (str_nat (numeral_value p + 1)) = numeral_value p + 1"
    by (rule str_nat_value)
  show "str_nat (numeral_value p + 1) \<noteq> p"
  proof
    assume "str_nat (numeral_value p + 1) = p"
    then have "numeral_value (str_nat (numeral_value p + 1)) = numeral_value p"
      by simp
    with v show False
      by simp
  qed
qed

lemma body_advances:
  assumes "st_result st (st_phone_number st) = None"
    and "get_names (st_world st) (st_phone_number st) = Some ([(''error'', PStr m)], None, w1)"
    and "contains ''not on Telegram'' m"
    and "increment_phone_number (st_phone_number st) = Inr q"
  shows "validate_users_body file_path excel_file st =
           Some (Continue
             \<lparr>st_world = sleep delay (write_last_checked_number
                            (print (ErrorFor (st_phone_number st) (PStr m)) w1) file_path q),
              st_phone_number = q,
              st_result = (st_result st)(st_phone_number st \<mapsto> [(''error'', PStr m)])\<rparr>)"
  using assms by (simp add: validate_users_body_def py_in_def Let_def)

lemma body_not_registered:
  assumes "st_result st (st_phone_number st) = None"
    and "get_names (st_world st) (st_phone_number st) = Some ([(''error'', PStr not_registered_msg)], None, w1)"
    and "increment_phone_number (st_phone_number st) = Inr q"
  shows "validate_users_body file_path excel_file st =
           Some (Continue
             \<lparr>st_world = sleep delay (write_last_checked_number
                            (print (ErrorFor (st_phone_number st) (PStr not_registered_msg)) w1) file_path q),
              st_phone_number = q,
              st_result = (st_result st)(st_phone_number st \<mapsto> [(''error'', PStr not_registered_msg)])\<rparr>)"
  using assms(1,2) not_registered_phrase assms(3) by (rule body_advances)

lemma body_found:
  assumes "st_result st (st_phone_number st) = None"
    and "get_names (st_world st) (st_phone_number st) = Some (user_info u, None, w1)"
    and "save_to_excel w1 excel_file (user_info u) = (Inr (), w2)"
    and "increment_phone_number (st_phone_number st) = Inr q"
  shows "validate_users_body file_path excel_file st =
           Some (Continue
             \<lparr>st_world = sleep delay (write_last_checked_number w2 file_path q),
              st_phone_number = q,
              st_result = (st_result st)(st_phone_number st \<mapsto> user_info u)\<rparr>)"
  using assms by (simp add: validate_users_body_def user_info_no_error Let_def)

lemma body_found_no_successor:
  assumes "st_result st (st_phone_number st) = None"
    and "get_names (st_world st) (st_phone_number st) = Some (user_info u, None, w1)"
    and "save_to_excel w1 excel_file (user_info u) = (Inr (), w2)"
    and "increment_phone_number (st_phone_number st) = Inl e"
  shows "validate_users_body file_path excel_file st =
           Some (Raise e
             \<lparr>st_world = w2,
              st_phone_number = st_phone_number st,
              st_result = (st_result st)(st_phone_number st \<mapsto> user_info u)\<rparr>)"
  using assms by (simp add: validate_users_body_def user_info_no_error Let_def)

lemma body_halts:
  assumes "st_result st (st_phone_number st) = None"
    and "get_names (st_world st) (st_phone_number st) = Some ([(''error'', PStr m)], None, w1)"
    and "\<not> contains ''not on Telegram'' m"
  shows "validate_users_body file_path excel_file st =
           Some (Break
             \<lparr>st_world = print (UnexpectedErrorFor (st_phone_number st) (PStr m))
                            (print (ErrorFor (st_phone_number st) (PStr m)) w1),
              st_phone_number = st_phone_number st,
              st_result = (st_result st)(st_phone_number st \<mapsto> [(''error'', PStr m)])\<rparr>)"
  using assms by (simp add: validate_users_body_def py_in_def Let_def)

text \<open>
  Claim C1, as amended. Let the loop start at a decimal numeral \<open>p\<close> with value \<open>n\<close>, with
  a result store that does not exist yet and is a different file from the cursor file,
  and let \<open>p\<close> and the numeral of \<open>n + 3\<close> have at most 4300 digits. If the lookups of
  \<open>n\<close> and of \<open>n + 1\<close> both return the not-registered result and the lookup of \<open>n + 2\<close>
  returns the data of a user, then after these three passes the loop is still running,
  the result store has been written with exactly one row, the data of that user, and the
  cursor file holds the numeral of \<open>n + 3\<close>.
\<close>

theorem validate_users_absent_absent_found:
  fixes p file_path excel_file :: string and w w1 w2 w3 :: world and u :: user
  defines "p1 \<equiv> decimal_int (int (numeral_value p) + 1)"
    and "p2 \<equiv> decimal_int (int (numeral_value p) + 2)"
    and "p3 \<equiv> decimal_int (int (numeral_value p) + 3)"
  assumes num: "is_numeral p"
    and len: "length p \<le> max_str_digits"
    and len3: "length p3 \<le> max_str_digits"
    and distinct: "file_path \<noteq> excel_file"
    and fresh: "files w excel_file = None"
    and l1: "get_names w p = Some ([(''error'', PStr not_registered_msg)], None, w1)"
    and l2: "get_names
               (sleep delay (write_last_checked_number
                  (print (ErrorFor p (PStr not_registered_msg)) w1) file_path p1)) p1
             = Some ([(''error'', PStr not_registered_msg)], None, w2)"
    and l3: "get_names
               (sleep delay (write_last_checked_number
                  (print (ErrorFor p1 (PStr not_registered_msg)) w2) file_path p2)) p2
             = Some (user_info u, None, w3)"
  shows "\<exists>st. validate_users_loop 3 file_path excel_file
                 \<lparr>st_world = w, st_phone_number = p, st_result = Map.empty\<rparr> = Some (Continue st)
              \<and> files (st_world st) excel_file = Some (Workbook [user_info u])
              \<and> files (st_world st) file_path = Some (Text p3)
              \<and> st_phone_number st = p3"
proof -
  let ?n = "numeral_value p"
  let ?d = "[(''error'', PStr not_registered_msg)]"
  have p1: "p1 = str_nat (?n + 1)"
    by (simp add: p1_def decimal_int_def nat_add_distrib)
  have p3n: "p3 = str_nat (?n + 3)"
    by (simp add: p3_def decimal_int_def nat_add_distrib)
  have len1: "length p1 \<le> max_str_digits"
    using str_nat_length_mono [of "?n + 1" "?n + 3"] len3 by (simp add: p1 p3n)
  have num1: "is_numeral p1" and val1: "numeral_value p1 = ?n + 1" and ne1: "p1 \<noteq> p"
    using increment_numeral_next [OF num len] len1 by (simp_all add: p1)
  have "nat (int ?n + 2) = numeral_value p1 + 1"
    unfolding val1 by arith
  then have p2: "p2 = str_nat (numeral_value p1 + 1)"
    unfolding p2_def decimal_int_def by (simp del: One_nat_def add_Suc_right)
  have len2: "length p2 \<le> max_str_digits"
    using str_nat_length_mono [of "numeral_value p1 + 1" "?n + 3"] len3 by (simp add: p2 p3n val1)
  have num2: "is_numeral p2" and val2: "numeral_value p2 = ?n + 2" and ne21: "p2 \<noteq> p1"
    using increment_numeral_next [OF num1 len1] len2 by (simp_all add: p2 val1)
  have ne2: "p2 \<noteq> p"
    using val2 by auto
  have "nat (int ?n + 3) = numeral_value p2 + 1"
    unfolding val2 by arith
  then have p3: "p3 = str_nat (numeral_value p2 + 1)"
    unfolding p3_def decimal_int_def by (simp del: One_nat_def add_Suc_right)
  have i1: "increment_phone_number p = Inr p1"
    using increment_numeral_next(1) [OF num len] len1 by (simp add: p1)
  have i2: "increment_phone_number p1 = Inr p2"
    using increment_numeral_next(1) [OF num1 len1] len2 by (simp add: p2)
  have i3: "increment_phone_number p2 = Inr p3"
    using increment_numeral_next(1) [OF num2 len2] len3 by (simp add: p3)

  let ?st0 = "\<lparr>st_world = w, st_phone_number = p, st_result = Map.empty\<rparr>"
  let ?v1 = "sleep delay (write_last_checked_number (print (ErrorFor p (PStr not_registered_msg)) w1) file_path p1)"
  let ?st1 = "\<lparr>st_world = ?v1, st_phone_number = p1, st_result = [p \<mapsto> ?d]\<rparr>"
  let ?v2 = "sleep delay (write_last_checked_number (print (ErrorFor p1 (PStr not_registered_msg)) w2) file_path p2)"
  let ?st2 = "\<lparr>st_world = ?v2, st_phone_number = p2, st_result = [p \<mapsto> ?d, p1 \<mapsto> ?d]\<rparr>"
  let ?w4 = "print (ResultsSaved excel_file) (w3\<lparr>files := (files w3)(excel_file \<mapsto> Workbook [user_info u])\<rparr>)"
  let ?v3 = "sleep delay (write_last_checked_number ?w4 file_path p3)"
  let ?st3 = "\<lparr>st_world = ?v3, st_phone_number = p3, st_result = [p \<mapsto> ?d, p1 \<mapsto> ?d, p2 \<mapsto> user_info u]\<rparr>"

  have s1: "validate_users_body file_path excel_file ?st0 = Some (Continue ?st1)"
    using body_not_registered [of ?st0 w1 p1 file_path excel_file] l1 i1 by simp
  have s2: "validate_users_body file_path excel_file ?st1 = Some (Continue ?st2)"
    using body_not_registered [of ?st1 w2 p2 file_path excel_file] l2 i2 ne1 by simp

  have "files w1 = files w"
    using get_names_cases [OF l1] by simp
  then have "files ?v1 excel_file = None"
    using fresh distinct by (simp add: sleep_def write_last_checked_number_def print_def)
  moreover have "files w2 = files ?v1"
    using get_names_cases [OF l2] by simp
  ultimately have "files ?v2 excel_file = None"
    using distinct by (simp add: sleep_def write_last_checked_number_def print_def)
  moreover have "files w3 = files ?v2"
    using get_names_cases [OF l3] by simp
  ultimately have "files w3 excel_file = None"
    by simp
  then have save: "save_to_excel w3 excel_file (user_info u) = (Inr (), ?w4)"
    by (simp add: save_to_excel_def)
  have s3: "validate_users_body file_path excel_file ?st2 = Some (Continue ?st3)"
    using body_found [of ?st2 u w3 excel_file ?w4 p3 file_path] l3 save i3 ne2 ne21 by simp

  have "validate_users_loop 3 file_path excel_file ?st0 = Some (Continue ?st3)"
    by (simp add: numeral_3_eq_3 s1 s2 s3)
  moreover have "files ?v3 excel_file = Some (Workbook [user_info u])"
    using distinct by (simp add: sleep_def write_last_checked_number_def print_def)
  moreover have "files ?v3 file_path = Some (Text p3)"
    by (simp add: sleep_def write_last_checked_number_def)
  ultimately show ?thesis
    by simp
qed

theorem validate_users_absent_absent_found_witness:
  "\<exists>st. validate_users_loop 3 ''last_checked_number.txt'' ''results.xlsx''
           \<lparr>st_world = world0\<lparr>rpc := [Users [], Users [], Users [alice], Users [alice]]\<rparr>,
            st_phone_number = ''4912345'', st_result = Map.empty\<rparr> = Some (Continue st)
        \<and> files (st_world st) ''results.xlsx'' = Some (Workbook [user_info alice])
        \<and> files (st_world st) ''last_checked_number.txt'' = Some (Text ''4912348'')
        \<and> st_phone_number st = ''4912348''"
proof -
  let ?u = "alice"
  let ?p = "''4912345''" and ?p1 = "''4912346''" and ?p2 = "''4912347''"
  let ?fp = "''last_checked_number.txt''" and ?xl = "''results.xlsx''"
  let ?d = "[(''error'', PStr not_registered_msg)]"
  let ?w = "world0\<lparr>rpc := [Users [], Users [], Users [?u], Users [?u]]\<rparr>"
  let ?a1 = "(print (Checking ?p) ?w)\<lparr>rpc := [Users [], Users [?u], Users [?u]],
                                        sent := [ImportContactsRequest ?p]\<rparr>"
  let ?v1 = "sleep delay (write_last_checked_number
               (print (ErrorFor ?p (PStr not_registered_msg)) (print Done ?a1)) ?fp ?p1)"
  let ?a2 = "(print (Checking ?p1) ?v1)\<lparr>rpc := [Users [?u], Users [?u]],
                                         sent := [ImportContactsRequest ?p, ImportContactsRequest ?p1]\<rparr>"
  let ?v2 = "sleep delay (write_last_checked_number
               (print (ErrorFor ?p1 (PStr not_registered_msg)) (print Done ?a2)) ?fp ?p2)"
  let ?a3 = "(print (Checking ?p2) ?v2)\<lparr>rpc := [],
               sent := [ImportContactsRequest ?p, ImportContactsRequest ?p1, ImportContactsRequest ?p2,
                        DeleteContactsRequest [777]]\<rparr>"
  have v: "numeral_value ?p = 4912345"
    by (simp add: numeral_value_def digit_val_def)
  have e1: "decimal_int (int (numeral_value ?p) + 1) = ?p1"
    and e2: "decimal_int (int (numeral_value ?p) + 2) = ?p2"
    and e3: "decimal_int (int (numeral_value ?p) + 3) = ''4912348''"
    by (simp_all add: v str_eval)
  have num: "is_numeral ?p"
    by (simp add: numeral_eval)
  have len: "length ?p \<le> max_str_digits" and len3: "length ''4912348'' \<le> max_str_digits"
    by (simp_all add: max_str_digits_def)
  have distinct: "?fp \<noteq> ?xl"
    by simp
  have fresh: "files ?w ?xl = None"
    by (simp add: world0_def)
  have "get_names_try (print (Checking ?p) ?w) ?p = Some (Inr ?d, ?a1)"
    by (simp add: world_eval)
  then have l1: "get_names ?w ?p = Some (?d, None, print Done ?a1)"
    by (rule get_names_returns)
  have "get_names_try (print (Checking ?p1) ?v1) ?p1 = Some (Inr ?d, ?a2)"
    by (simp add: world_eval write_last_checked_number_def)
  then have l2: "get_names ?v1 ?p1 = Some (?d, None, print Done ?a2)"
    by (rule get_names_returns)
  have "get_names_try (print (Checking ?p2) ?v2) ?p2 = Some (Inr (user_info ?u), ?a3)"
    by (simp add: world_eval write_last_checked_number_def alice_def)
  then have l3: "get_names ?v2 ?p2 = Some (user_info ?u, None, print Done ?a3)"
    by (rule get_names_returns)
  from validate_users_absent_absent_found
         [of ?p ?fp ?xl ?w "print Done ?a1" "print Done ?a2" ?u "print Done ?a3",
          unfolded e1 e2 e3, OF num len len3 distinct fresh l1 l2 l3]
  show ?thesis .
qed

theorem validate_users_absent_absent_found_counterexample:
  "is_numeral (nines @ ''7'')
   \<and> validate_users_loop 3 ''last_checked_number.txt'' ''results.xlsx''
        \<lparr>st_world = world0\<lparr>rpc := [Users [], Users [], Users [alice], Users [alice]]\<rparr>,
         st_phone_number = nines @ ''7'', st_result = Map.empty\<rparr> =
       Some (Raise
         (ValueError
            (''Exceeds the limit (4300 digits) for integer string conversion; ''
             @ ''use sys.set_int_max_str_digits() to increase the limit''))
         \<lparr>st_world = world0
            \<lparr>files := [''last_checked_number.txt'' \<mapsto> Text (nines @ ''9''),
                       ''results.xlsx'' \<mapsto> Workbook [user_info alice]],
             stdout := [Checking (nines @ ''7''), Done,
                        ErrorFor (nines @ ''7'') (PStr not_registered_msg),
                        Checking (nines @ ''8''), Done,
                        ErrorFor (nines @ ''8'') (PStr not_registered_msg),
                        Checking (nines @ ''9''), Done,
                        ResultsSaved ''results.xlsx''],
             sleeps := [5, 5],
             sent := [ImportContactsRequest (nines @ ''7''), ImportContactsRequest (nines @ ''8''),
                      ImportContactsRequest (nines @ ''9''), DeleteContactsRequest [777]]\<rparr>,
          st_phone_number = nines @ ''9'',
          st_result = [nines @ ''7'' \<mapsto> [(''error'', PStr not_registered_msg)],
                       nines @ ''8'' \<mapsto> [(''error'', PStr not_registered_msg)],
                       nines @ ''9'' \<mapsto> user_info alice]\<rparr>)"
proof -
  let ?p = "nines @ ''7''" and ?p1 = "nines @ ''8''" and ?p2 = "nines @ ''9''"
  let ?fp = "''last_checked_number.txt''" and ?xl = "''results.xlsx''"
  let ?d = "[(''error'', PStr not_registered_msg)]"
  let ?e = "ValueError
            (''Exceeds the limit (4300 digits) for integer string conversion; ''
             @ ''use sys.set_int_max_str_digits() to increase the limit'')"
  let ?w = "world0\<lparr>rpc := [Users [], Users [], Users [alice], Users [alice]]\<rparr>"
  let ?a1 = "(print (Checking ?p) ?w)\<lparr>rpc := [Users [], Users [alice], Users [alice]],
                                        sent := [ImportContactsRequest ?p]\<rparr>"
  let ?v1 = "sleep delay (write_last_checked_number
               (print (ErrorFor ?p (PStr not_registered_msg)) (print Done ?a1)) ?fp ?p1)"
  let ?a2 = "(print (Checking ?p1) ?v1)\<lparr>rpc := [Users [alice], Users [alice]],
                                         sent := [ImportContactsRequest ?p, ImportContactsRequest ?p1]\<rparr>"
  let ?v2 = "sleep delay (write_last_checked_number
               (print (ErrorFor ?p1 (PStr not_registered_msg)) (print Done ?a2)) ?fp ?p2)"
  let ?a3 = "(print (Checking ?p2) ?v2)\<lparr>rpc := [],
               sent := [ImportContactsRequest ?p, ImportContactsRequest ?p1, ImportContactsRequest ?p2,
                        DeleteContactsRequest [777]]\<rparr>"
  let ?w4 = "print (ResultsSaved ?xl)
               ((print Done ?a3)\<lparr>files := (files (print Done ?a3))(?xl \<mapsto> Workbook [user_info alice])\<rparr>)"
  let ?st0 = "\<lparr>st_world = ?w, st_phone_number = ?p, st_result = Map.empty\<rparr>"
  let ?st1 = "\<lparr>st_world = ?v1, st_phone_number = ?p1, st_result = [?p \<mapsto> ?d]\<rparr>"
  let ?st2 = "\<lparr>st_world = ?v2, st_phone_number = ?p2, st_result = [?p \<mapsto> ?d, ?p1 \<mapsto> ?d]\<rparr>"
  let ?st3 = "\<lparr>st_world = ?w4, st_phone_number = ?p2,
              st_result = [?p \<mapsto> ?d, ?p1 \<mapsto> ?d, ?p2 \<mapsto> user_info alice]\<rparr>"
  have dig: "is_digit CHR ''7''" "is_digit CHR ''8''" "is_digit CHR ''9''"
    by (simp_all add: is_digit_def)
  have num: "is_numeral ?p"
    using dig(1) by (rule nines_digit)
  have i1: "increment_phone_number ?p = Inr ?p1"
    using dig(1,2) by (rule increment_nines_digit) (simp add: digit_val_def)
  have i2: "increment_phone_number ?p1 = Inr ?p2"
    using dig(2,3) by (rule increment_nines_digit) (simp add: digit_val_def)
  have i3: "increment_phone_number ?p2 = Inl ?e"
    using increment_all_nines by (simp only: nines_nine)
  have "get_names_try (print (Checking ?p) ?w) ?p = Some (Inr ?d, ?a1)"
    by (simp add: world_eval)
  then have l1: "get_names ?w ?p = Some (?d, None, print Done ?a1)"
    by (rule get_names_returns)
  have "get_names_try (print (Checking ?p1) ?v1) ?p1 = Some (Inr ?d, ?a2)"
    by (simp add: world_eval write_last_checked_number_def)
  then have l2: "get_names ?v1 ?p1 = Some (?d, None, print Done ?a2)"
    by (rule get_names_returns)
  have "get_names_try (print (Checking ?p2) ?v2) ?p2 = Some (Inr (user_info alice), ?a3)"
    by (simp add: world_eval write_last_checked_number_def alice_def)
  then have l3: "get_names ?v2 ?p2 = Some (user_info alice, None, print Done ?a3)"
    by (rule get_names_returns)
  have save: "save_to_excel (print Done ?a3) ?xl (user_info alice) = (Inr (), ?w4)"
    by (simp add: save_to_excel_def world_eval write_last_checked_number_def)
  have s1: "validate_users_body ?fp ?xl ?st0 = Some (Continue ?st1)"
    using body_not_registered [of ?st0 "print Done ?a1" ?p1 ?fp ?xl] l1 i1 by simp
  have s2: "validate_users_body ?fp ?xl ?st1 = Some (Continue ?st2)"
    using body_not_registered [of ?st1 "print Done ?a2" ?p2 ?fp ?xl] l2 i2 by simp
  have s3: "validate_users_body ?fp ?xl ?st2 = Some (Raise ?e ?st3)"
    using body_found_no_successor [of ?st2 alice "print Done ?a3" ?xl ?w4 ?e ?fp] l3 save i3
    by simp
  have "validate_users_loop 3 ?fp ?xl ?st0 = Some (Raise ?e ?st3)"
    by (simp add: numeral_3_eq_3 s1 s2 s3)
  moreover have "?w4 = world0
            \<lparr>files := [?fp \<mapsto> Text ?p2, ?xl \<mapsto> Workbook [user_info alice]],
             stdout := [Checking ?p, Done, ErrorFor ?p (PStr not_registered_msg),
                        Checking ?p1, Done, ErrorFor ?p1 (PStr not_registered_msg),
                        Checking ?p2, Done, ResultsSaved ?xl],
             sleeps := [5, 5],
             sent := [ImportContactsRequest ?p, ImportContactsRequest ?p1,
                      ImportContactsRequest ?p2, DeleteContactsRequest [777]]\<rparr>"
    by (simp add: world_eval write_last_checked_number_def delay_def)
  ultimately show ?thesis
    using num by simp
qed

lemma starts_with_append: "starts_with sub s \<Longrightarrow> starts_with sub (s @ b)"
  by (induction sub s rule: starts_with.induct) auto

lemma contains_empty: "contains [] s"
  by (cases s) auto

lemma contains_append_right: "contains sub s \<Longrightarrow> contains sub (s @ b)"
proof (induction s)
  case Nil
  then show ?case
    by (simp add: contains_empty)
next
  case (Cons c s)
  then show ?case
    using starts_with_append [of sub "c # s" b] by auto
qed

lemma contains_append_left: "contains sub s \<Longrightarrow> contains sub (a @ s)"
  by (induction a) auto

lemma type_error_phrase:
  "contains sub t \<Longrightarrow> contains sub (type_error_msg (TypeError t) p)"
  unfolding type_error_msg_def exn_str.simps
  by (intro contains_append_left contains_append_right)

lemma validate_users_halts_without_phrase:
  assumes "get_names w p = Some ([(''error'', PStr m)], None, w1)"
    and "\<not> contains ''not on Telegram'' m"
  shows "validate_users (Suc k) w p file_path excel_file =
           Some (Inr [p \<mapsto> [(''error'', PStr m)]],
                 print (UnexpectedErrorFor p (PStr m)) (print (ErrorFor p (PStr m)) w1))
         \<and> files (print (UnexpectedErrorFor p (PStr m)) (print (ErrorFor p (PStr m)) w1)) = files w"
proof -
  have "validate_users_body file_path excel_file
          \<lparr>st_world = w, st_phone_number = p, st_result = Map.empty\<rparr> =
        Some (Break \<lparr>st_world = print (UnexpectedErrorFor p (PStr m)) (print (ErrorFor p (PStr m)) w1),
                     st_phone_number = p,
                     st_result = [p \<mapsto> [(''error'', PStr m)]]\<rparr>)"
    using body_halts [of "\<lparr>st_world = w, st_phone_number = p, st_result = Map.empty\<rparr>" m w1
                        file_path excel_file] assms
    by simp
  moreover have "files w1 = files w"
    using get_names_cases [OF assms(1)] by simp
  ultimately show ?thesis
    by (simp add: validate_users_def print_def)
qed

text \<open>
  Claim C2. What the loop does with a \<open>TypeError\<close> result whose exception text contains
  the words \<open>not on Telegram\<close>: the test that tells the not-registered result from the
  other errors looks for those words in the message, and the message of the \<open>TypeError\<close>
  result carries the exception text. The loop therefore treats the result as
  not-registered: it writes the next number to the cursor file and goes on, where every
  other \<open>TypeError\<close> result prints an unexpected error and breaks.
\<close>

theorem validate_users_type_error_advances:
  assumes "get_names w p = Some ([(''error'', PStr (type_error_msg (TypeError t) p))], None, w1)"
    and "contains ''not on Telegram'' t"
    and "increment_phone_number p = Inr q"
  shows "validate_users_loop 1 file_path excel_file
           \<lparr>st_world = w, st_phone_number = p, st_result = Map.empty\<rparr> =
         Some (Continue
           \<lparr>st_world = sleep delay (write_last_checked_number
                          (print (ErrorFor p (PStr (type_error_msg (TypeError t) p))) w1) file_path q),
            st_phone_number = q,
            st_result = [p \<mapsto> [(''error'', PStr (type_error_msg (TypeError t) p))]]\<rparr>)
         \<and> files (sleep delay (write_last_checked_number
                          (print (ErrorFor p (PStr (type_error_msg (TypeError t) p))) w1) file_path q))
             file_path = Some (Text q)
         \<and> validate_users 1 w p file_path excel_file = None"
proof -
  let ?m = "type_error_msg (TypeError t) p"
  let ?st = "\<lparr>st_world = w, st_phone_number = p, st_result = Map.empty\<rparr>"
  have "contains ''not on Telegram'' ?m"
    using assms(2) by (rule type_error_phrase)
  with body_advances [of ?st ?m w1 q file_path excel_file] assms(1,3)
  have "validate_users_body file_path excel_file ?st =
         Some (Continue
           \<lparr>st_world = sleep delay (write_last_checked_number (print (ErrorFor p (PStr ?m)) w1) file_path q),
            st_phone_number = q,
            st_result = [p \<mapsto> [(''error'', PStr ?m)]]\<rparr>)"
    by simp
  then show ?thesis
    by (simp add: validate_users_def sleep_def write_last_checked_number_def)
qed

theorem validate_users_type_error_advances_witness:
  "get_names (world0\<lparr>rpc := [Users [alice], Raises (TypeError ''user is not on Telegram'')]\<rparr>) ''4912345'' =
     Some ([(''error'', PStr (type_error_msg (TypeError ''user is not on Telegram'') ''4912345''))], None,
           world0\<lparr>stdout := [Checking ''4912345'', Done],
                   sent := [ImportContactsRequest ''4912345'', DeleteContactsRequest [777]]\<rparr>)
   \<and> validate_users_loop 1 ''last_checked_number.txt'' ''results.xlsx''
        \<lparr>st_world = world0\<lparr>rpc := [Users [alice], Raises (TypeError ''user is not on Telegram'')]\<rparr>,
         st_phone_number = ''4912345'', st_result = Map.empty\<rparr> =
     Some (Continue
        \<lparr>st_world = world0
           \<lparr>files := [''last_checked_number.txt'' \<mapsto> Text ''4912346''],
            stdout := [Checking ''4912345'', Done,
                       ErrorFor ''4912345''
                         (PStr (type_error_msg (TypeError ''user is not on Telegram'') ''4912345''))],
            sleeps := [5],
            sent := [ImportContactsRequest ''4912345'', DeleteContactsRequest [777]]\<rparr>,
         st_phone_number = ''4912346'',
         st_result = [''4912345'' \<mapsto>
            [(''error'', PStr (type_error_msg (TypeError ''user is not on Telegram'') ''4912345''))]]\<rparr>)"
proof -
  let ?p = "''4912345''"
  let ?t = "''user is not on Telegram''"
  let ?w = "world0\<lparr>rpc := [Users [alice], Raises (TypeError ?t)]\<rparr>"
  let ?a = "world0\<lparr>stdout := [Checking ?p],
                    sent := [ImportContactsRequest ?p, DeleteContactsRequest [777]]\<rparr>"
  have "get_names_try (print (Checking ?p) ?w) ?p = Some (Inl (TypeError ?t), ?a)"
    by (simp add: world_eval alice_def)
  then have g: "get_names ?w ?p = Some ([(''error'', PStr (type_error_msg (TypeError ?t) ?p))], None, print Done ?a)"
    by (rule get_names_type_error)
  have c: "contains ''not on Telegram'' ?t"
    by simp
  have i: "increment_phone_number ?p = Inr ''4912346''"
    by (simp add: increment_phone_number_def int_eval str_eval)
  from validate_users_type_error_advances [OF g c i, of "''last_checked_number.txt''" "''results.xlsx''"]
  have "validate_users_loop 1 ''last_checked_number.txt'' ''results.xlsx''
          \<lparr>st_world = ?w, st_phone_number = ?p, st_result = Map.empty\<rparr> =
        Some (Continue
          \<lparr>st_world = sleep delay (write_last_checked_number
                         (print (ErrorFor ?p (PStr (type_error_msg (TypeError ?t) ?p))) (print Done ?a))
                         ''last_checked_number.txt'' ''4912346''),
           st_phone_number = ''4912346'',
           st_result = [?p \<mapsto> [(''error'', PStr (type_error_msg (TypeError ?t) ?p))]]\<rparr>)"
    by blast
  then show ?thesis
    using g by (simp add: world_eval write_last_checked_number_def delay_def)
qed

section \<open>Connecting through the proxies\<close>

lemma login_loop_all_fail:
  assumes "sessions w = ss @ rest" and "length ss = length ps"
    and "\<forall>s \<in> set ss. login_try s \<noteq> None"
  shows "\<exists>w'. login_loop w ps = Some (Inl (PyException ''All proxies failed''), w')
           \<and> net_log w' = net_log w @ concat (map (\<lambda>p. [Connect p, Disconnect p]) ps)
           \<and> sessions w' = rest \<and> files w' = files w"
  using assms
proof (induction ps arbitrary: w ss)
  case Nil
  then show ?case by simp
next
  case (Cons p ps)
  from Cons.prems(2) obtain s ss' where ss: "ss = s # ss'"
    by (cases ss) auto
  with Cons.prems(3) obtain e where e: "login_try s = Some e"
    by auto
  let ?w1 = "disconnect p (print (FailedToConnect p e) (w\<lparr>sessions := ss' @ rest, net_log := net_log w @ [Connect p]\<rparr>))"
  have step: "login_loop w (p # ps) = login_loop ?w1 ps"
    using Cons.prems(1) ss e by (simp add: Let_def)
  have "sessions ?w1 = ss' @ rest"
    by (simp add: disconnect_def print_def)
  moreover have "length ss' = length ps"
    using Cons.prems(2) ss by simp
  moreover have "\<forall>s \<in> set ss'. login_try s \<noteq> None"
    using Cons.prems(3) ss by simp
  ultimately obtain w' where
    "login_loop ?w1 ps = Some (Inl (PyException ''All proxies failed''), w')"
    "net_log w' = net_log ?w1 @ concat (map (\<lambda>p. [Connect p, Disconnect p]) ps)"
    "sessions w' = rest" "files w' = files ?w1"
    using Cons.IH [of ?w1 ss'] by blast
  with step show ?case
    by (simp add: disconnect_def print_def)
qed

lemma login_loop_first_success:
  assumes "sessions w = ss @ s # rest" and "length ss = length ps"
    and "\<forall>x \<in> set ss. login_try x \<noteq> None" and "login_try s = None"
  shows "\<exists>w'. login_loop w (ps @ p # later) = Some (Inr (TelegramClient p), w')
           \<and> net_log w' = net_log w @ concat (map (\<lambda>q. [Connect q, Disconnect q]) ps) @ [Connect p]
           \<and> sessions w' = rest"
  using assms
proof (induction ps arbitrary: w ss)
  case Nil
  then show ?case
    by (simp add: Let_def print_def)
next
  case (Cons q ps)
  from Cons.prems(2) obtain x ss' where ss: "ss = x # ss'"
    by (cases ss) auto
  with Cons.prems(3) obtain e where e: "login_try x = Some e"
    by auto
  let ?w1 = "disconnect q (print (FailedToConnect q e) (w\<lparr>sessions := ss' @ s # rest, net_log := net_log w @ [Connect q]\<rparr>))"
  have step: "login_loop w ((q # ps) @ p # later) = login_loop ?w1 (ps @ p # later)"
    using Cons.prems(1) ss e by (simp add: Let_def)
  have "sessions ?w1 = ss' @ s # rest"
    by (simp add: disconnect_def print_def)
  moreover have "length ss' = length ps"
    using Cons.prems(2) ss by simp
  moreover have "\<forall>x \<in> set ss'. login_try x \<noteq> None"
    using Cons.prems(3) ss by simp
  ultimately obtain w' where
    "login_loop ?w1 (ps @ p # later) = Some (Inr (TelegramClient p), w')"
    "net_log w' = net_log ?w1 @ concat (map (\<lambda>q. [Connect q, Disconnect q]) ps) @ [Connect p]"
    "sessions w' = rest"
    using Cons.IH [of ?w1 ss'] Cons.prems(4) by blast
  with step show ?case
    by (simp add: disconnect_def print_def)
qed

text \<open>
  Claim C6. Let the first sessions opened fail, one for each proxy of \<open>ps\<close>. Then \<open>login\<close>
  on \<open>ps\<close> connects through each proxy in order, disconnects after each failure, and
  raises the exception \<open>All proxies failed\<close>, returning no client. If the list goes on
  with a proxy \<open>p\<close> whose session succeeds, \<open>login\<close> returns the client built with \<open>p\<close>
  after the same failed attempts, and nothing is tried for the proxies after \<open>p\<close>.
\<close>

theorem login_failover:
  assumes "sessions w = ss @ rest" and "length ss = length ps"
    and "\<forall>s \<in> set ss. login_try s \<noteq> None"
  shows "(\<exists>w'. login w ps = Some (Inl (PyException ''All proxies failed''), w')
            \<and> net_log w' = net_log w @ concat (map (\<lambda>p. [Connect p, Disconnect p]) ps)
            \<and> sessions w' = rest)
         \<and> (\<forall>s rest' p later. rest = s # rest' \<and> login_try s = None \<longrightarrow>
              (\<exists>w'. login w (ps @ p # later) = Some (Inr (TelegramClient p), w')
                 \<and> net_log w' = net_log w @ concat (map (\<lambda>q. [Connect q, Disconnect q]) ps) @ [Connect p]
                 \<and> sessions w' = rest'))"
proof (intro conjI allI impI)
  have "sessions (print LoggingIn w) = ss @ rest"
    using assms(1) by (simp add: print_def)
  from login_loop_all_fail [OF this assms(2,3)]
  show "\<exists>w'. login w ps = Some (Inl (PyException ''All proxies failed''), w')
            \<and> net_log w' = net_log w @ concat (map (\<lambda>p. [Connect p, Disconnect p]) ps)
            \<and> sessions w' = rest"
    by (auto simp: login_def print_def)
next
  fix s rest' p later
  assume "rest = s # rest' \<and> login_try s = None"
  then have "sessions (print LoggingIn w) = ss @ s # rest'" and ok: "login_try s = None"
    using assms(1) by (simp_all add: print_def)
  from login_loop_first_success [OF this(1) assms(2,3) ok, of p later]
  show "\<exists>w'. login w (ps @ p # later) = Some (Inr (TelegramClient p), w')
                 \<and> net_log w' = net_log w @ concat (map (\<lambda>q. [Connect q, Disconnect q]) ps) @ [Connect p]
                 \<and> sessions w' = rest'"
    by (auto simp: login_def print_def)
qed

theorem login_failover_witness:
  "(\<exists>w'. login (world0\<lparr>sessions := [refused,
                                       wrong_code,
                                       two_step]\<rparr>)
             [proxy_a,
              proxy_b]
           = Some (Inl (PyException ''All proxies failed''), w')
         \<and> net_log w' = [Connect proxy_a,
                         Disconnect proxy_a,
                         Connect proxy_b,
                         Disconnect proxy_b])
   \<and> (\<exists>w'. login (world0\<lparr>sessions := [refused,
                                         wrong_code,
                                         two_step]\<rparr>)
               [proxy_a,
                proxy_b,
                proxy_c,
                proxy_d]
             = Some (Inr (TelegramClient proxy_c), w')
           \<and> net_log w' = [Connect proxy_a,
                           Disconnect proxy_a,
                           Connect proxy_b,
                           Disconnect proxy_b,
                           Connect proxy_c])"
proof -
  let ?f1 = "refused"
  let ?f2 = "wrong_code"
  let ?ok = "two_step"
  let ?p1 = "proxy_a"
  let ?p2 = "proxy_b"
  let ?p3 = "proxy_c"
  let ?p4 = "proxy_d"
  let ?w = "world0\<lparr>sessions := [?f1, ?f2, ?ok]\<rparr>"
  have h1: "sessions ?w = [?f1, ?f2] @ [?ok]"
    by simp
  have h2: "length [?f1, ?f2] = length [?p1, ?p2]"
    by simp
  have h3: "\<forall>s \<in> set [?f1, ?f2]. login_try s \<noteq> None"
    by (simp add: login_try_def refused_def wrong_code_def)
  have ok: "[?ok] = ?ok # [] \<and> login_try ?ok = None"
    by (simp add: login_try_def two_step_def)
  have nl: "net_log ?w = []"
    by (simp add: world0_def)
  from login_failover [OF h1 h2 h3] ok
  have "(\<exists>w'. login ?w [?p1, ?p2] = Some (Inl (PyException ''All proxies failed''), w')
            \<and> net_log w' = net_log ?w @ concat (map (\<lambda>p. [Connect p, Disconnect p]) [?p1, ?p2]))
        \<and> (\<exists>w'. login ?w ([?p1, ?p2] @ ?p3 # [?p4]) = Some (Inr (TelegramClient ?p3), w')
                 \<and> net_log w' = net_log ?w @ concat (map (\<lambda>q. [Connect q, Disconnect q]) [?p1, ?p2]) @ [Connect ?p3])"
    by blast
  then show ?thesis
    unfolding nl by simp
qed

end
